theory Spec2Isabelle
  imports Complex_Main
begin

section \<open>Data model of the in-memory database\<close>

text \<open>
  The platform keeps all of its state in one object \<open>database\<close> of JavaScript
  \<open>Map\<close>s and arrays. Identifiers (uuid strings in the source) are natural numbers
  here, and \<open>uuidv4()\<close> draws the next one from a counter kept in the state.
  Quantities and counters are integers, money is an exact rational (the rounding of
  binary floating point is outside the model), instants are integers.
  A \<open>Map\<close> that is only read by key and mutated in place is a partial function; a
  \<open>Map\<close> whose insertion order or size matters is an association list with
  \<open>map_set\<close> for \<open>Map.prototype.set\<close>.
\<close>

type_synonym ident = nat

datatype role = Admin | Supplier | Distributor | Retailer | Customer

record profile =
  points :: int
  wallet :: rat
  referrerId :: "ident option"

record user =
  username :: string
  role :: role
  profile :: profile

record price =
  original :: rat
  selling :: rat
  distributor :: rat
  retailer :: rat

record inventory =
  total_stock :: int
  available :: int
  reserved :: int
  threshold :: int

record product =
  price :: price
  inventory :: inventory
  supplierId :: ident

record order_item =
  item_productId :: ident
  item_price :: rat
  item_quantity :: int
  item_total :: rat

record amount =
  amt_subtotal :: rat
  amt_discount :: rat
  amt_total :: rat

datatype order_status = Pending | Paid | Shipped | Delivered | Cancelled | Refunded

datatype payment_status = Unpaid | PaymentPaid | PaymentRefunded

datatype order_type = Online | Offline | Live | GroupBuying | FlashSale

datatype timeline_status = Created | Became order_status

record applied_coupon =
  ac_id :: ident
  ac_code :: string
  ac_discount :: rat

text \<open>
  Orders written by the promotion routes carry no \<open>timeline\<close> array, so the field is
  optional: pushing to a missing timeline throws in the source.
\<close>

record order =
  order_id :: ident
  order_userId :: ident
  items :: "order_item list"
  amount :: amount
  coupon :: "applied_coupon option"
  orderType :: order_type
  order_groupId :: "ident option"
  status :: order_status
  paymentStatus :: payment_status
  paidAmount :: "rat option"
  timeline :: "timeline_status list option"

datatype coupon_type = Percentage | Fixed | OtherType

record coupon =
  coupon_id :: ident
  code :: string
  coupon_type :: coupon_type
  coupon_value :: rat
  minAmount :: rat
  maxDiscount :: "rat option"
  maxUsage :: int
  usageCount :: int
  coupon_active :: bool

datatype recipient_type = ToStore | ToUser

record notification =
  note_id :: ident
  note_kind :: string
  recipientId :: ident
  recipientType :: recipient_type
  note_orderId :: ident

record activity =
  act_productId :: ident
  groupSize :: int
  act_originalPrice :: rat
  groupPrice :: rat
  act_startTime :: int
  act_endTime :: int
  maxGroups :: int
  currentGroups :: int
  totalParticipants :: int

record participant =
  p_userId :: ident
  p_username :: string
  p_quantity :: int

datatype group_status = Recruiting | Completed | Expired

record group =
  group_id :: ident
  group_activityId :: ident
  leaderId :: ident
  participants :: "participant list"
  requiredSize :: int
  currentSize :: int
  group_status :: group_status

record flash_sale =
  fs_productId :: ident
  fs_originalPrice :: rat
  salePrice :: rat
  fs_inventory :: int
  soldCount :: int
  fs_startTime :: int
  fs_endTime :: int
  limitPerUser :: int
  fs_participants :: "ident \<rightharpoonup> int"

record database =
  users :: "ident \<rightharpoonup> user"
  products :: "ident \<rightharpoonup> product"
  orders :: "(ident \<times> order) list"
  coupons :: "coupon list"
  notifications :: "notification list"
  groupBuyingActivities :: "ident \<rightharpoonup> activity"
  groupBuyingGroups :: "ident \<rightharpoonup> group"
  flashSales :: "ident \<rightharpoonup> flash_sale"
  uuid_next :: nat

text \<open>
  The responses of the routes: each constructor is one of the error bodies the source
  sends (named after the error kind it stands for), \<open>InternalError\<close> is the 500 of a
  caught exception.
\<close>

datatype error =
    Unauthenticated
  | Forbidden
  | EmptyItems
  | ProductNotFound
  | InsufficientStock
  | OrderNotFound
  | AlreadyPaid
  | SaleNotFound
  | PromotionNotStarted
  | PromotionEnded
  | QuotaExceeded
  | ActivityNotFound
  | ActivityClosed
  | GroupFull
  | AlreadyJoined
  | InternalError

fun map_set :: "'k \<Rightarrow> 'v \<Rightarrow> ('k \<times> 'v) list \<Rightarrow> ('k \<times> 'v) list" where
  "map_set k v [] = [(k, v)]"
| "map_set k v (e # es) = (if fst e = k then (k, v) # es else e # map_set k v es)"

definition uuidv4 :: "database \<Rightarrow> ident \<times> database" where
  "uuidv4 db = (uuid_next db, db\<lparr>uuid_next := Suc (uuid_next db)\<rparr>)"

section \<open>Order creation (POST /api/orders)\<close>

record req_item =
  req_productId :: ident
  req_quantity :: int

record create_req =
  req_items :: "req_item list"
  req_couponCode :: "string option"
  req_orderType :: order_type
  req_storeId :: "ident option"

definition itemPrice :: "role \<Rightarrow> product \<Rightarrow> rat" where
  "itemPrice r product =
     (if r = Distributor then distributor (price product)
      else if r = Retailer then retailer (price product)
      else selling (price product))"

text \<open>
  The loop over the requested items. It returns from the handler at the first missing
  product or short stock; what it has written to the products before that stays
  written, so the error comes back together with the products as they are then.
\<close>

fun reserve_items ::
  "role \<Rightarrow> req_item list \<Rightarrow> (ident \<rightharpoonup> product) \<Rightarrow> rat \<Rightarrow> order_item list \<Rightarrow>
     error option \<times> (ident \<rightharpoonup> product) \<times> rat \<times> order_item list" where
  "reserve_items r [] ps totalAmount orderItems = (None, ps, totalAmount, orderItems)"
| "reserve_items r (item # rest) ps totalAmount orderItems =
     (case ps (req_productId item) of
        None \<Rightarrow> (Some ProductNotFound, ps, totalAmount, orderItems)
      | Some product \<Rightarrow>
          if available (inventory product) < req_quantity item
          then (Some InsufficientStock, ps, totalAmount, orderItems)
          else
            let itemTotal = itemPrice r product * of_int (req_quantity item);
                product' = product\<lparr>inventory := (inventory product)
                  \<lparr>available := available (inventory product) - req_quantity item,
                   reserved := reserved (inventory product) + req_quantity item\<rparr>\<rparr>
            in reserve_items r rest (ps(req_productId item \<mapsto> product'))
                 (totalAmount + itemTotal)
                 (orderItems @
                    [\<lparr>item_productId = req_productId item, item_price = itemPrice r product,
                      item_quantity = req_quantity item, item_total = itemTotal\<rparr>]))"

definition coupon_matches :: "string \<Rightarrow> coupon \<Rightarrow> bool" where
  "coupon_matches couponCode c \<longleftrightarrow> code c = couponCode \<and> coupon_active c"

text \<open>\<open>coupon.maxDiscount || Infinity\<close>: a missing or zero cap is no cap.\<close>

definition discount_of :: "coupon \<Rightarrow> rat \<Rightarrow> rat" where
  "discount_of c totalAmount =
     (case coupon_type c of
        Percentage \<Rightarrow>
          (case maxDiscount c of
             None \<Rightarrow> totalAmount * coupon_value c / 100
           | Some m \<Rightarrow> if m = 0 then totalAmount * coupon_value c / 100
                       else min (totalAmount * coupon_value c / 100) m)
      | Fixed \<Rightarrow> min (coupon_value c) totalAmount
      | OtherType \<Rightarrow> 0)"

text \<open>\<open>coupon.usageCount++\<close> on the object that \<open>find\<close> returned: the first match.\<close>

fun use_coupon :: "string \<Rightarrow> coupon list \<Rightarrow> coupon list" where
  "use_coupon couponCode [] = []"
| "use_coupon couponCode (c # cs) =
     (if coupon_matches couponCode c then c\<lparr>usageCount := usageCount c + 1\<rparr> # cs
      else c # use_coupon couponCode cs)"

definition apply_coupon ::
  "string option \<Rightarrow> rat \<Rightarrow> coupon list \<Rightarrow> rat \<times> applied_coupon option \<times> coupon list" where
  "apply_coupon couponCode totalAmount cs =
     (case couponCode of
        None \<Rightarrow> (0, None, cs)
      | Some cc \<Rightarrow>
          if cc = [] then (0, None, cs)
          else
            (case find (coupon_matches cc) cs of
               None \<Rightarrow> (0, None, cs)
             | Some c \<Rightarrow>
                 if totalAmount \<ge> minAmount c
                 then (discount_of c totalAmount,
                       Some \<lparr>ac_id = coupon_id c, ac_code = code c,
                             ac_discount = discount_of c totalAmount\<rparr>,
                       use_coupon cc cs)
                 else (0, None, cs)))"

definition create_order :: "ident \<Rightarrow> create_req \<Rightarrow> database \<Rightarrow> (error + order) \<times> database" where
  "create_order uid req db =
     (case users db uid of
        None \<Rightarrow> (Inl Unauthenticated, db)
      | Some req_user \<Rightarrow>
          if req_items req = [] then (Inl EmptyItems, db)
          else
            (case reserve_items (role req_user) (req_items req) (products db) 0 [] of
               (Some e, ps, totalAmount, orderItems) \<Rightarrow> (Inl e, db\<lparr>products := ps\<rparr>)
             | (None, ps, totalAmount, orderItems) \<Rightarrow>
                 let (discountAmount, appliedCoupon, cs) =
                       apply_coupon (req_couponCode req) totalAmount (coupons db);
                     finalAmount = totalAmount - discountAmount;
                     (oid, db1) = uuidv4 (db\<lparr>products := ps, coupons := cs\<rparr>);
                     newOrder = \<lparr>order_id = oid, order_userId = uid, items = orderItems,
                       amount = \<lparr>amt_subtotal = totalAmount, amt_discount = discountAmount,
                                 amt_total = finalAmount\<rparr>,
                       coupon = appliedCoupon, orderType = req_orderType req,
                       order_groupId = None, status = Pending, paymentStatus = Unpaid,
                       paidAmount = None, timeline = Some [Created]\<rparr>;
                     db2 = db1\<lparr>orders := map_set oid newOrder (orders db1)\<rparr>
                 in
                   (case (req_orderType req, req_storeId req) of
                      (Offline, Some storeId) \<Rightarrow>
                        let (nid, db3) = uuidv4 db2
                        in (Inr newOrder,
                            db3\<lparr>notifications := notifications db3 @
                              [\<lparr>note_id = nid, note_kind = ''new_order'', recipientId = storeId,
                                recipientType = ToStore, note_orderId = oid\<rparr>]\<rparr>)
                    | _ \<Rightarrow> (Inr newOrder, db2))))"

section \<open>Order status update (PATCH /api/orders/:orderId/status)\<close>

text \<open>
  The request's \<open>shippingInfo\<close> and \<open>refundReason\<close> only fill the order's
  \<open>shipping\<close> and \<open>refund\<close> notes and are left out. The requested status is one of
  the six order statuses.
\<close>

definition canUpdate ::
  "ident \<Rightarrow> user \<Rightarrow> order \<Rightarrow> order_status \<Rightarrow> (ident \<rightharpoonup> product) \<Rightarrow> bool" where
  "canUpdate uid req_user order st ps \<longleftrightarrow>
     role req_user = Admin \<or>
     (role req_user = Supplier \<and>
        list_ex (\<lambda>item. case ps (item_productId item) of
                           None \<Rightarrow> False
                         | Some product \<Rightarrow> supplierId product = uid) (items order)) \<or>
     (role req_user = Customer \<and> order_userId order = uid \<and> st = Cancelled)"

fun release_items :: "order_item list \<Rightarrow> (ident \<rightharpoonup> product) \<Rightarrow> (ident \<rightharpoonup> product)" where
  "release_items [] ps = ps"
| "release_items (item # rest) ps =
     (case ps (item_productId item) of
        None \<Rightarrow> release_items rest ps
      | Some product \<Rightarrow>
          release_items rest (ps(item_productId item \<mapsto> product\<lparr>inventory := (inventory product)
            \<lparr>available := available (inventory product) + item_quantity item,
             reserved := reserved (inventory product) - item_quantity item\<rparr>\<rparr>)))"

fun confirm_items :: "order_item list \<Rightarrow> (ident \<rightharpoonup> product) \<Rightarrow> (ident \<rightharpoonup> product)" where
  "confirm_items [] ps = ps"
| "confirm_items (item # rest) ps =
     (case ps (item_productId item) of
        None \<Rightarrow> confirm_items rest ps
      | Some product \<Rightarrow>
          confirm_items rest (ps(item_productId item \<mapsto> product\<lparr>inventory := (inventory product)
            \<lparr>reserved := reserved (inventory product) - item_quantity item,
             total_stock := total_stock (inventory product) - item_quantity item\<rparr>\<rparr>)))"

text \<open>
  The status is written before the timeline is pushed to, so an order without a
  timeline keeps the new status although the handler answers 500.
\<close>

definition update_order_status ::
  "ident \<Rightarrow> ident \<Rightarrow> order_status \<Rightarrow> database \<Rightarrow> (error + order) \<times> database" where
  "update_order_status uid orderId st db =
     (case users db uid of
        None \<Rightarrow> (Inl Unauthenticated, db)
      | Some req_user \<Rightarrow>
          (case map_of (orders db) orderId of
             None \<Rightarrow> (Inl OrderNotFound, db)
           | Some order \<Rightarrow>
               if \<not> canUpdate uid req_user order st (products db) then (Inl Forbidden, db)
               else
                 let oldStatus = status order;
                     order1 = order\<lparr>status := st\<rparr>
                 in
                   (case timeline order1 of
                      None \<Rightarrow>
                        (Inl InternalError, db\<lparr>orders := map_set orderId order1 (orders db)\<rparr>)
                    | Some entries \<Rightarrow>
                        let order2 = order1\<lparr>timeline := Some (entries @ [Became st])\<rparr>;
                            ps = (if st = Cancelled \<or> st = Refunded
                                  then release_items (items order2) (products db)
                                  else if st = Paid \<and> oldStatus = Pending
                                  then confirm_items (items order2) (products db)
                                  else products db)
                        in (Inr order2,
                            db\<lparr>orders := map_set orderId order2 (orders db),
                               products := ps\<rparr>))))"

section \<open>Payment (POST /api/orders/:orderId/pay)\<close>

definition add_wallet :: "ident \<Rightarrow> user \<Rightarrow> rat \<Rightarrow> (ident \<rightharpoonup> user) \<Rightarrow> (ident \<rightharpoonup> user)" where
  "add_wallet k u x us = us(k \<mapsto> u\<lparr>profile := (profile u)\<lparr>wallet := wallet (profile u) + x\<rparr>\<rparr>)"

text \<open>
  The three nested blocks of the commission computation. Each level reads the users as
  the level before left them and stops where a referrer id is absent or names no user.
\<close>

definition commissions :: "ident \<Rightarrow> rat \<Rightarrow> (ident \<rightharpoonup> user) \<Rightarrow> (ident \<rightharpoonup> user)" where
  "commissions uid orderTotal us =
     (case us uid of
        None \<Rightarrow> us
      | Some req_user \<Rightarrow>
     (case referrerId (profile req_user) of
        None \<Rightarrow> us
      | Some r1 \<Rightarrow>
     (case us r1 of
        None \<Rightarrow> us
      | Some referrer \<Rightarrow>
          let us1 = add_wallet r1 referrer (orderTotal * (5 / 100)) us in
     (case referrerId (profile referrer) of
        None \<Rightarrow> us1
      | Some r2 \<Rightarrow>
     (case us1 r2 of
        None \<Rightarrow> us1
      | Some level2Referrer \<Rightarrow>
          let us2 = add_wallet r2 level2Referrer (orderTotal * (3 / 100)) us1 in
     (case referrerId (profile level2Referrer) of
        None \<Rightarrow> us2
      | Some r3 \<Rightarrow>
     (case us2 r3 of
        None \<Rightarrow> us2
      | Some level3Referrer \<Rightarrow>
          add_wallet r3 level3Referrer (orderTotal * (1 / 100)) us2)))))))"

definition pay_order :: "ident \<Rightarrow> ident \<Rightarrow> database \<Rightarrow> (error + order \<times> int) \<times> database" where
  "pay_order uid orderId db =
     (case users db uid of
        None \<Rightarrow> (Inl Unauthenticated, db)
      | Some req_user \<Rightarrow>
          (case map_of (orders db) orderId of
             None \<Rightarrow> (Inl OrderNotFound, db)
           | Some order \<Rightarrow>
               if order_userId order \<noteq> uid then (Inl Forbidden, db)
               else if paymentStatus order = PaymentPaid then (Inl AlreadyPaid, db)
               else
                 let order1 = order\<lparr>paymentStatus := PaymentPaid, status := Paid,
                                    paidAmount := Some (amt_total (amount order))\<rparr>
                 in
                   (case timeline order1 of
                      None \<Rightarrow>
                        (Inl InternalError, db\<lparr>orders := map_set orderId order1 (orders db)\<rparr>)
                    | Some entries \<Rightarrow>
                        let order2 = order1\<lparr>timeline := Some (entries @ [Became Paid])\<rparr>;
                            pointsEarned = \<lfloor>amt_total (amount order2) * (1 / 100)\<rfloor>;
                            us1 = (users db)(uid \<mapsto> req_user\<lparr>profile := (profile req_user)
                                     \<lparr>points := points (profile req_user) + pointsEarned\<rparr>\<rparr>);
                            us2 = commissions uid (amt_total (amount order2)) us1
                        in (Inr (order2, pointsEarned),
                            db\<lparr>orders := map_set orderId order2 (orders db),
                               users := us2\<rparr>))))"

section \<open>Flash sale purchase (POST /api/marketing/flash-sale/:saleId/purchase)\<close>

definition userPurchased :: "flash_sale \<Rightarrow> ident \<Rightarrow> int" where
  "userPurchased flashSale uid =
     (case fs_participants flashSale uid of None \<Rightarrow> 0 | Some n \<Rightarrow> n)"

definition flash_order :: "ident \<Rightarrow> ident \<Rightarrow> flash_sale \<Rightarrow> int \<Rightarrow> ident \<Rightarrow> order" where
  "flash_order oid uid flashSale quantity saleId =
     \<lparr>order_id = oid, order_userId = uid,
      items = [\<lparr>item_productId = fs_productId flashSale, item_price = salePrice flashSale,
                item_quantity = quantity,
                item_total = salePrice flashSale * of_int quantity\<rparr>],
      amount = \<lparr>amt_subtotal = salePrice flashSale * of_int quantity,
                amt_discount =
                  (fs_originalPrice flashSale - salePrice flashSale) * of_int quantity,
                amt_total = salePrice flashSale * of_int quantity\<rparr>,
      coupon = None, orderType = FlashSale, order_groupId = None, status = Pending,
      paymentStatus = Unpaid, paidAmount = None, timeline = None\<rparr>"

definition flash_sale_purchase ::
  "int \<Rightarrow> ident \<Rightarrow> ident \<Rightarrow> int \<Rightarrow> database \<Rightarrow> (error + order) \<times> database" where
  "flash_sale_purchase now uid saleId quantity db =
     (case users db uid of
        None \<Rightarrow> (Inl Unauthenticated, db)
      | Some req_user \<Rightarrow>
          (case flashSales db saleId of
             None \<Rightarrow> (Inl SaleNotFound, db)
           | Some flashSale \<Rightarrow>
               if now < fs_startTime flashSale then (Inl PromotionNotStarted, db)
               else if now > fs_endTime flashSale then (Inl PromotionEnded, db)
               else if soldCount flashSale + quantity > fs_inventory flashSale
               then (Inl InsufficientStock, db)
               else if userPurchased flashSale uid + quantity > limitPerUser flashSale
               then (Inl QuotaExceeded, db)
               else
                 let (oid, db1) = uuidv4 db;
                     order = flash_order oid uid flashSale quantity saleId;
                     db2 = db1\<lparr>orders := map_set oid order (orders db1)\<rparr>;
                     flashSale' = flashSale
                       \<lparr>soldCount := soldCount flashSale + quantity,
                        fs_participants := (fs_participants flashSale)
                          (uid \<mapsto> userPurchased flashSale uid + quantity)\<rparr>
                 in (Inr order, db2\<lparr>flashSales := (flashSales db2)(saleId \<mapsto> flashSale')\<rparr>)))"

section \<open>Joining a group (POST /api/marketing/group-buying/:activityId/join)\<close>

definition group_order :: "ident \<Rightarrow> ident \<Rightarrow> activity \<Rightarrow> ident \<Rightarrow> participant \<Rightarrow> order" where
  "group_order oid activityId act gid p =
     \<lparr>order_id = oid, order_userId = p_userId p,
      items = [\<lparr>item_productId = act_productId act, item_price = groupPrice act,
                item_quantity = p_quantity p,
                item_total = groupPrice act * of_int (p_quantity p)\<rparr>],
      amount = \<lparr>amt_subtotal = groupPrice act * of_int (p_quantity p),
                amt_discount =
                  (act_originalPrice act - groupPrice act) * of_int (p_quantity p),
                amt_total = groupPrice act * of_int (p_quantity p)\<rparr>,
      coupon = None, orderType = GroupBuying, order_groupId = Some gid, status = Pending,
      paymentStatus = Unpaid, paidAmount = None, timeline = None\<rparr>"

text \<open>The \<open>forEach\<close> over the participants of a group that has just filled up.\<close>

fun fan_out :: "ident \<Rightarrow> activity \<Rightarrow> ident \<Rightarrow> participant list \<Rightarrow> database \<Rightarrow> database" where
  "fan_out activityId act gid [] db = db"
| "fan_out activityId act gid (p # ps) db =
     (let (oid, db1) = uuidv4 db;
          db2 = db1\<lparr>orders := map_set oid (group_order oid activityId act gid p) (orders db1)\<rparr>;
          (nid, db3) = uuidv4 db2;
          db4 = db3\<lparr>notifications := notifications db3 @
                  [\<lparr>note_id = nid, note_kind = ''group_buying_success'',
                    recipientId = p_userId p, recipientType = ToUser, note_orderId = oid\<rparr>]\<rparr>
      in fan_out activityId act gid ps db4)"

text \<open>
  Lines 239 to 264: the group named by the request, which must be recruiting, or a new
  one that is stored at once, with the activity's group counter incremented.
\<close>

definition resolve_group ::
  "ident \<Rightarrow> ident \<Rightarrow> activity \<Rightarrow> ident option \<Rightarrow> database \<Rightarrow>
     error + (ident \<times> group \<times> activity \<times> database)" where
  "resolve_group uid activityId act groupId db =
     (case groupId of
        Some gid \<Rightarrow>
          (case groupBuyingGroups db gid of
             None \<Rightarrow> Inl GroupFull
           | Some g \<Rightarrow>
               if group_status g \<noteq> Recruiting then Inl GroupFull
               else Inr (gid, g, act, db))
      | None \<Rightarrow>
          let (gid, db1) = uuidv4 db;
              g = \<lparr>group_id = gid, group_activityId = activityId, leaderId = uid,
                   participants = [], requiredSize = groupSize act, currentSize = 0,
                   group_status = Recruiting\<rparr>;
              act1 = act\<lparr>currentGroups := currentGroups act + 1\<rparr>
          in Inr (gid, g, act1,
                  db1\<lparr>groupBuyingGroups := (groupBuyingGroups db1)(gid \<mapsto> g),
                      groupBuyingActivities :=
                        (groupBuyingActivities db1)(activityId \<mapsto> act1)\<rparr>))"

text \<open>
  Lines 266 to 333: the duplicate check, the new participant, the completion test with
  the fan-out of orders, and the activity's participant counter.
\<close>

definition admit ::
  "ident \<Rightarrow> user \<Rightarrow> ident \<Rightarrow> activity \<Rightarrow> ident \<Rightarrow> group \<Rightarrow> int \<Rightarrow> database \<Rightarrow>
     (error + group \<times> activity) \<times> database" where
  "admit uid req_user activityId act gid g quantity db =
     (if list_ex (\<lambda>p. p_userId p = uid) (participants g) then (Inl AlreadyJoined, db)
      else
        let g1 = g\<lparr>participants := participants g @
                     [\<lparr>p_userId = uid, p_username = username req_user,
                       p_quantity = quantity\<rparr>],
                   currentSize := currentSize g + 1\<rparr>;
            act' = act\<lparr>totalParticipants := totalParticipants act + 1\<rparr>
        in
          if currentSize g1 \<ge> requiredSize g1
          then
            let g2 = g1\<lparr>group_status := Completed\<rparr>;
                db1 = fan_out activityId act (group_id g2) (participants g2) db
            in (Inr (g2, act'),
                db1\<lparr>groupBuyingGroups := (groupBuyingGroups db1)(gid \<mapsto> g2),
                    groupBuyingActivities :=
                      (groupBuyingActivities db1)(activityId \<mapsto> act')\<rparr>)
          else
            (Inr (g1, act'),
             db\<lparr>groupBuyingGroups := (groupBuyingGroups db)(gid \<mapsto> g1),
                groupBuyingActivities := (groupBuyingActivities db)(activityId \<mapsto> act')\<rparr>))"

definition group_buying_join ::
  "int \<Rightarrow> ident \<Rightarrow> ident \<Rightarrow> ident option \<Rightarrow> int \<Rightarrow> database \<Rightarrow>
     (error + group \<times> activity) \<times> database" where
  "group_buying_join now uid activityId groupId quantity db =
     (case users db uid of
        None \<Rightarrow> (Inl Unauthenticated, db)
      | Some req_user \<Rightarrow>
          (case groupBuyingActivities db activityId of
             None \<Rightarrow> (Inl ActivityNotFound, db)
           | Some act \<Rightarrow>
               if now < act_startTime act \<or> now > act_endTime act
               then (Inl ActivityClosed, db)
               else
                 (case resolve_group uid activityId act groupId db of
                    Inl e \<Rightarrow> (Inl e, db)
                  | Inr (gid, g, act1, db1) \<Rightarrow>
                      admit uid req_user activityId act1 gid g quantity db1)))"

section \<open>Notions used to state the properties\<close>

subsection \<open>Order lines and amounts\<close>

definition role_price :: "role \<Rightarrow> price \<Rightarrow> rat" where
  "role_price r pr =
     (case r of Distributor \<Rightarrow> distributor pr | Retailer \<Rightarrow> retailer pr | _ \<Rightarrow> selling pr)"

definition priced_for :: "role \<Rightarrow> (ident \<rightharpoonup> product) \<Rightarrow> req_item \<Rightarrow> order_item \<Rightarrow> bool" where
  "priced_for r ps item line \<longleftrightarrow>
     item_productId line = req_productId item \<and>
     item_quantity line = req_quantity item \<and>
     map_option (\<lambda>product. role_price r (price product)) (ps (req_productId item)) =
       Some (item_price line) \<and>
     item_total line = item_price line * of_int (item_quantity line)"

text \<open>
  The amounts of a promotional order: one line at the promotional price, subtotal and
  total both equal to it, and the saving against the original price in \<open>discount\<close>.
\<close>

definition promo_amounts :: "rat \<Rightarrow> rat \<Rightarrow> order \<Rightarrow> bool" where
  "promo_amounts orig promo ord \<longleftrightarrow>
     (case items ord of
        [line] \<Rightarrow>
          item_price line = promo \<and>
          item_total line = promo * of_int (item_quantity line) \<and>
          amount ord =
            \<lparr>amt_subtotal = promo * of_int (item_quantity line),
             amt_discount = (orig - promo) * of_int (item_quantity line),
             amt_total = promo * of_int (item_quantity line)\<rparr>
      | _ \<Rightarrow> False)"

subsection \<open>Inventory counters\<close>

definition sum_bounded :: "(ident \<rightharpoonup> product) \<Rightarrow> bool" where
  "sum_bounded ps \<longleftrightarrow>
     (\<forall>k p. ps k = Some p \<longrightarrow>
        available (inventory p) + reserved (inventory p) \<le> total_stock (inventory p))"

subsection \<open>The referral chain\<close>

definition referrer_of :: "(ident \<rightharpoonup> user) \<Rightarrow> ident \<Rightarrow> ident option" where
  "referrer_of us k =
     (case us k of
        None \<Rightarrow> None
      | Some u \<Rightarrow>
          (case referrerId (profile u) of
             None \<Rightarrow> None
           | Some r \<Rightarrow> (case us r of None \<Rightarrow> None | Some _ \<Rightarrow> Some r)))"

definition level1 :: "(ident \<rightharpoonup> user) \<Rightarrow> ident \<Rightarrow> ident option" where
  "level1 us buyer = referrer_of us buyer"

definition level2 :: "(ident \<rightharpoonup> user) \<Rightarrow> ident \<Rightarrow> ident option" where
  "level2 us buyer = (case level1 us buyer of None \<Rightarrow> None | Some k \<Rightarrow> referrer_of us k)"

definition level3 :: "(ident \<rightharpoonup> user) \<Rightarrow> ident \<Rightarrow> ident option" where
  "level3 us buyer = (case level2 us buyer of None \<Rightarrow> None | Some k \<Rightarrow> referrer_of us k)"

text \<open>
  What a user earns on one payment by \<open>buyer\<close>, as a fraction of the order total: the
  rates of the levels at which the user stands in the buyer's chain.
\<close>

definition commission_rate :: "(ident \<rightharpoonup> user) \<Rightarrow> ident \<Rightarrow> ident \<Rightarrow> rat" where
  "commission_rate us buyer k =
     (if level1 us buyer = Some k then 5 / 100 else 0) +
     (if level2 us buyer = Some k then 3 / 100 else 0) +
     (if level3 us buyer = Some k then 1 / 100 else 0)"

definition wallet_of :: "(ident \<rightharpoonup> user) \<Rightarrow> ident \<Rightarrow> rat" where
  "wallet_of us k = (case us k of None \<Rightarrow> 0 | Some u \<Rightarrow> wallet (profile u))"

definition credit :: "ident \<Rightarrow> rat \<Rightarrow> (ident \<rightharpoonup> user) \<Rightarrow> (ident \<rightharpoonup> user)" where
  "credit k x us = (case us k of None \<Rightarrow> us | Some u \<Rightarrow> add_wallet k u x us)"

subsection \<open>Flash sales\<close>

definition sale_ok :: "flash_sale \<Rightarrow> bool" where
  "sale_ok fs \<longleftrightarrow>
     soldCount fs \<le> fs_inventory fs \<and> (\<forall>u. userPurchased fs u \<le> limitPerUser fs)"

definition sold :: "flash_sale \<Rightarrow> int \<Rightarrow> ident \<Rightarrow> flash_sale" where
  "sold fs q uid =
     fs\<lparr>soldCount := soldCount fs + q,
        fs_participants := (fs_participants fs)(uid \<mapsto> userPurchased fs uid + q)\<rparr>"

fun purchases :: "(int \<times> ident \<times> int) list \<Rightarrow> ident \<Rightarrow> database \<Rightarrow> database" where
  "purchases [] saleId db = db"
| "purchases ((now, uid, quantity) # rest) saleId db =
     purchases rest saleId (snd (flash_sale_purchase now uid saleId quantity db))"

subsection \<open>Groups\<close>

text \<open>No stored order has an identifier that \<open>uuidv4\<close> has yet to hand out.\<close>

definition ids_fresh :: "database \<Rightarrow> bool" where
  "ids_fresh db \<longleftrightarrow> (\<forall>k \<in> set (map fst (orders db)). k < uuid_next db)"

definition group_ok :: "group \<Rightarrow> bool" where
  "group_ok g \<longleftrightarrow>
     currentSize g = int (length (participants g)) \<and>
     (group_status g = Recruiting \<longrightarrow> currentSize g < requiredSize g) \<and>
     (group_status g = Completed \<longrightarrow> currentSize g = requiredSize g)"

definition new_participant :: "ident \<Rightarrow> user \<Rightarrow> int \<Rightarrow> participant" where
  "new_participant uid u q = \<lparr>p_userId = uid, p_username = username u, p_quantity = q\<rparr>"

definition joined :: "group \<Rightarrow> ident \<Rightarrow> user \<Rightarrow> int \<Rightarrow> group" where
  "joined g uid u q =
     g\<lparr>participants := participants g @ [new_participant uid u q],
       currentSize := currentSize g + 1\<rparr>"

fun expected_orders ::
  "nat \<Rightarrow> ident \<Rightarrow> activity \<Rightarrow> ident \<Rightarrow> participant list \<Rightarrow> (ident \<times> order) list" where
  "expected_orders n activityId act gid [] = []"
| "expected_orders n activityId act gid (p # ps) =
     (n, group_order n activityId act gid p) # expected_orders (n + 2) activityId act gid ps"

fun expected_notes :: "nat \<Rightarrow> participant list \<Rightarrow> notification list" where
  "expected_notes n [] = []"
| "expected_notes n (p # ps) =
     \<lparr>note_id = Suc n, note_kind = ''group_buying_success'', recipientId = p_userId p,
      recipientType = ToUser, note_orderId = n\<rparr> # expected_notes (n + 2) ps"

definition order_summary :: "ident \<times> order \<Rightarrow> ident \<times> ident option \<times> rat" where
  "order_summary e = (order_userId (snd e), order_groupId (snd e), amt_total (amount (snd e)))"

text \<open>
  What a successful join leaves behind, from the state \<open>db\<close> before it to the state
  \<open>db'\<close> and the group \<open>g'\<close> after it: the group is completed exactly if it is full;
  if it is not, no order and no notification was written; if it is, the orders written
  are one per participant, in the participants' order, each for the group price times
  the participant's quantity, and so are the notifications.
\<close>

definition join_outcome :: "database \<Rightarrow> activity \<Rightarrow> database \<Rightarrow> group \<Rightarrow> bool" where
  "join_outcome db act db' g' \<longleftrightarrow>
     group_ok g' \<and> ids_fresh db' \<and>
     (group_status g' = Completed \<longleftrightarrow> currentSize g' = requiredSize g') \<and>
     (group_status g' \<noteq> Completed \<longrightarrow>
        group_status g' = Recruiting \<and> orders db' = orders db \<and>
        notifications db' = notifications db) \<and>
     (group_status g' = Completed \<longrightarrow>
        (\<exists>new msgs.
           orders db' = orders db @ new \<and> notifications db' = notifications db @ msgs \<and>
           map order_summary new =
             map (\<lambda>p. (p_userId p, Some (group_id g'), groupPrice act * of_int (p_quantity p)))
               (participants g') \<and>
           map recipientId msgs = map p_userId (participants g')))"

section \<open>Example states\<close>

definition mk_product :: "rat \<Rightarrow> rat \<Rightarrow> rat \<Rightarrow> int \<Rightarrow> product" where
  "mk_product s d r n =
     \<lparr>price = \<lparr>original = s, selling = s, distributor = d, retailer = r\<rparr>,
      inventory = \<lparr>total_stock = n, available = n, reserved = 0, threshold = 0\<rparr>,
      supplierId = 4\<rparr>"

definition mk_user :: "role \<Rightarrow> ident option \<Rightarrow> user" where
  "mk_user r ref =
     \<lparr>username = ''demo'', role = r,
      profile = \<lparr>points = 0, wallet = 0, referrerId = ref\<rparr>\<rparr>"

definition act9 :: activity where
  "act9 =
     \<lparr>act_productId = 2, groupSize = 3, act_originalPrice = 50, groupPrice = 30,
      act_startTime = 0, act_endTime = 100, maxGroups = 100, currentGroups = 0,
      totalParticipants = 0\<rparr>"

definition sale7 :: flash_sale where
  "sale7 =
     \<lparr>fs_productId = 1, fs_originalPrice = 100, salePrice = 60, fs_inventory = 5,
      soldCount = 0, fs_startTime = 0, fs_endTime = 100, limitPerUser = 1,
      fs_participants = Map.empty\<rparr>"

text \<open>
  A shop with a customer 1 referred by the distributor 2, who was referred by the
  retailer 3, who was referred by the administrator 4; two products with 10 and 2 units
  in stock; one coupon; one group-buying activity for groups of three; one flash sale.
\<close>

definition shop :: database where
  "shop =
     \<lparr>users = [1 \<mapsto> mk_user Customer (Some 2), 2 \<mapsto> mk_user Distributor (Some 3),
               3 \<mapsto> mk_user Retailer (Some 4), 4 \<mapsto> mk_user Admin None],
      products = [1 \<mapsto> mk_product 100 80 90 10, 2 \<mapsto> mk_product 50 40 45 2],
      orders = [],
      coupons = [\<lparr>coupon_id = 1, code = ''HALF'', coupon_type = Percentage,
                  coupon_value = 50, minAmount = 100, maxDiscount = Some 50, maxUsage = 1,
                  usageCount = 0, coupon_active = True\<rparr>],
      notifications = [],
      groupBuyingActivities = [9 \<mapsto> act9],
      groupBuyingGroups = Map.empty,
      flashSales = [7 \<mapsto> sale7],
      uuid_next = 100\<rparr>"

definition order_req :: "(ident \<times> int) list \<Rightarrow> string option \<Rightarrow> create_req" where
  "order_req its cc =
     \<lparr>req_items = map (\<lambda>(k, q). \<lparr>req_productId = k, req_quantity = q\<rparr>) its,
      req_couponCode = cc, req_orderType = Online, req_storeId = None\<rparr>"

text \<open>The counters (total, available, reserved) of a product.\<close>

definition stock :: "database \<Rightarrow> ident \<Rightarrow> (int \<times> int \<times> int) option" where
  "stock db k =
     map_option (\<lambda>p. (total_stock (inventory p), available (inventory p),
                       reserved (inventory p))) (products db k)"

definition order_status_of :: "database \<Rightarrow> ident \<Rightarrow> order_status option" where
  "order_status_of db k = map_option status (map_of (orders db) k)"

definition points_of :: "database \<Rightarrow> ident \<Rightarrow> int option" where
  "points_of db k = map_option (\<lambda>u. points (profile u)) (users db k)"

text \<open>Customer 1 orders three units of product 1; the order gets the identifier 100.\<close>

definition shop_reserved :: database where
  "shop_reserved = snd (create_order 1 (order_req [(1, 3)] None) shop)"

text \<open>The administrator marks that order paid, then refunded.\<close>

definition shop_confirmed :: database where
  "shop_confirmed = snd (update_order_status 4 100 Paid shop_reserved)"

definition shop_refunded :: database where
  "shop_refunded = snd (update_order_status 4 100 Refunded shop_confirmed)"

text \<open>Or the customer pays it, and the administrator ships and delivers it.\<close>

definition shop_paid :: database where
  "shop_paid = snd (pay_order 1 100 shop_reserved)"

definition shop_delivered :: database where
  "shop_delivered =
     snd (update_order_status 4 100 Delivered (snd (update_order_status 4 100 Shipped shop_paid)))"

text \<open>Customer 1 redeems the coupon, which may be used once, on two orders in a row.\<close>

definition shop_coupon_once :: database where
  "shop_coupon_once = snd (create_order 1 (order_req [(1, 5)] (Some ''HALF'')) shop)"

definition shop_coupon_twice :: database where
  "shop_coupon_twice = snd (create_order 1 (order_req [(1, 5)] (Some ''HALF'')) shop_coupon_once)"

text \<open>Customer 1 orders ten units of product 1, for a total of 1000.\<close>

definition shop_thousand :: database where
  "shop_thousand = snd (create_order 1 (order_req [(1, 10)] None) shop)"

text \<open>
  The shop after user 1 has opened a group of the activity 9 with a quantity of 2 (the
  group got the identifier 100) and user 2 has joined it with a quantity of 1.
\<close>

definition shop_group_of_two :: database where
  "shop_group_of_two =
     shop\<lparr>groupBuyingActivities := [9 \<mapsto> act9\<lparr>currentGroups := 1, totalParticipants := 2\<rparr>],
          groupBuyingGroups :=
            [100 \<mapsto> \<lparr>group_id = 100, group_activityId = 9, leaderId = 1,
                       participants =
                         [\<lparr>p_userId = 1, p_username = ''demo'', p_quantity = 2\<rparr>,
                          \<lparr>p_userId = 2, p_username = ''demo'', p_quantity = 1\<rparr>],
                       requiredSize = 3, currentSize = 2, group_status = Recruiting\<rparr>],
          uuid_next := 101\<rparr>"

definition payment_status_of :: "database \<Rightarrow> ident \<Rightarrow> payment_status option" where
  "payment_status_of db k = map_option paymentStatus (map_of (orders db) k)"

text \<open>
  Customer 1 buys one unit in the flash sale 7 (the order gets the identifier 100, for
  a total of 60) and then pays that order.
\<close>

definition shop_flash_bought :: database where
  "shop_flash_bought = snd (flash_sale_purchase 50 1 7 1 shop)"

definition shop_flash_paid :: database where
  "shop_flash_paid = snd (pay_order 1 100 shop_flash_bought)"

text \<open>
  A second activity, 8, on product 1 with a group price of 80, next to the activity 9
  (product 2, group price 30) whose group 100 has two of its three participants.
\<close>

definition act8 :: activity where
  "act8 =
     \<lparr>act_productId = 1, groupSize = 2, act_originalPrice = 100, groupPrice = 80,
      act_startTime = 0, act_endTime = 100, maxGroups = 100, currentGroups = 0,
      totalParticipants = 0\<rparr>"

definition shop_two_activities :: database where
  "shop_two_activities =
     shop_group_of_two
       \<lparr>groupBuyingActivities := (groupBuyingActivities shop_group_of_two)(8 \<mapsto> act8)\<rparr>"

text \<open>The products of all order lines, order by order.\<close>

definition ordered_products :: "database \<Rightarrow> ident list" where
  "ordered_products db = concat (map (\<lambda>e. map item_productId (items (snd e))) (orders db))"

section \<open>Inventory counters\<close>

text \<open>
  C1 (the code departs from it). The counters of a product are to satisfy
  \<open>available + reserved \<le> total\<close>, \<open>available \<ge> 0\<close> and \<open>reserved \<ge> 0\<close> after every
  sequence of order operations. Releasing stock on a refund does not look at what the
  order still holds: product 1 starts at (total, available, reserved) = (10, 10, 0), an
  order of three units reserves them, the status change to paid confirms them, and the
  status change to refunded releases them once more, which leaves \<open>reserved = -3\<close>.
\<close>

theorem refund_after_confirm_negative_reserved:
  "stock shop 1 = Some (10, 10, 0) \<and>
   stock shop_reserved 1 = Some (10, 7, 3) \<and>
   order_status_of shop_reserved 100 = Some Pending \<and>
   stock shop_confirmed 1 = Some (7, 7, 0) \<and>
   order_status_of shop_confirmed 100 = Some Paid \<and>
   stock shop_refunded 1 = Some (7, 10, - 3) \<and>
   order_status_of shop_refunded 100 = Some Refunded"
  by code_simp

text \<open>
  C2 (the code departs from it). An order whose second item is short of stock is to
  fail with \<open>InsufficientStock\<close> and leave every counter as it was. The loop returns at
  the short item without undoing the items before it: the request for three units of
  product 1 and five of product 2 (two in stock) fails, and product 1 keeps the
  reservation of three units.
\<close>

theorem failed_order_keeps_reservation:
  "fst (create_order 1 (order_req [(1, 3), (2, 5)] None) shop) = Inl InsufficientStock \<and>
   stock shop 1 = Some (10, 10, 0) \<and>
   stock (snd (create_order 1 (order_req [(1, 3), (2, 5)] None) shop)) 1 = Some (10, 7, 3) \<and>
   orders (snd (create_order 1 (order_req [(1, 3), (2, 5)] None) shop)) = []"
  by code_simp

text \<open>
  C3 (the code departs from it). Paying a pending order is to take each item's quantity
  off the product's \<open>reserved\<close> and \<open>total\<close> counters and to credit the buyer
  floor(1 % of the total) points. The payment route credits the points (3 for a total of
  300) and leaves the counters alone; the status route, asked for \<open>paid\<close>, takes the
  quantities off and credits nothing.
\<close>

theorem payment_skips_inventory_confirm:
  "order_status_of shop_reserved 100 = Some Pending \<and>
   stock shop_reserved 1 = Some (10, 7, 3) \<and>
   \<not> isl (fst (pay_order 1 100 shop_reserved)) \<and>
   order_status_of shop_paid 100 = Some Paid \<and>
   points_of shop_paid 1 = Some 3 \<and>
   stock shop_paid 1 = Some (10, 7, 3) \<and>
   stock shop_confirmed 1 = Some (7, 7, 0) \<and>
   points_of shop_confirmed 1 = Some 0"
  by code_simp

section \<open>Coupons\<close>

text \<open>
  C8 (the code departs from it). A coupon's \<open>usageCount\<close> is never to exceed its
  \<open>maxUsage\<close>, and the discount is capped. The cap works (50 % of 1000, and of 500, is
  cut to the \<open>maxDiscount\<close> of 50), but order creation never compares \<open>usageCount\<close> with
  \<open>maxUsage\<close>: a coupon with \<open>maxUsage = 1\<close> is redeemed by two orders in a row and
  ends at \<open>usageCount = 2\<close>.
\<close>

theorem coupon_used_beyond_max_usage:
  "amount (projr (fst (create_order 1 (order_req [(1, 10)] (Some ''HALF'')) shop))) =
     \<lparr>amt_subtotal = 1000, amt_discount = 50, amt_total = 950\<rparr> \<and>
   map maxUsage (coupons shop) = [1] \<and>
   map usageCount (coupons shop) = [0] \<and>
   map usageCount (coupons shop_coupon_once) = [1] \<and>
   \<not> isl (fst (create_order 1 (order_req [(1, 5)] (Some ''HALF'')) shop_coupon_once)) \<and>
   amt_discount (amount (projr (fst (create_order 1 (order_req [(1, 5)] (Some ''HALF''))
      shop_coupon_once)))) = 50 \<and>
   map usageCount (coupons shop_coupon_twice) = [2] \<and>
   map maxUsage (coupons shop_coupon_twice) = [1]"
  by code_simp

section \<open>Commissions\<close>

lemma map_of_map_set: "map_of (map_set k v xs) = (map_of xs)(k \<mapsto> v)"
  by (induction xs) auto

lemma referrer_of_credit: "referrer_of (credit k x us) = referrer_of us"
  by (rule ext) (auto simp: referrer_of_def credit_def add_wallet_def split: option.splits)

lemma wallet_of_credit:
  "us k \<noteq> None \<Longrightarrow> wallet_of (credit k x us) j = wallet_of us j + (if j = k then x else 0)"
  by (auto simp: wallet_of_def credit_def add_wallet_def split: option.splits)

lemma credit_None: "credit k x us j = None \<longleftrightarrow> us j = None"
  by (auto simp: credit_def add_wallet_def split: option.splits)

lemma referrer_of_Some: "referrer_of us k = Some r \<Longrightarrow> us r \<noteq> None"
  by (auto simp: referrer_of_def split: option.splits)

text \<open>The three nested blocks are a walk of at most three hops along \<open>referrer_of\<close>.\<close>

lemma commissions_walk:
  "commissions uid t us =
     (case referrer_of us uid of
        None \<Rightarrow> us
      | Some r1 \<Rightarrow>
          (case referrer_of (credit r1 (t * (5 / 100)) us) r1 of
             None \<Rightarrow> credit r1 (t * (5 / 100)) us
           | Some r2 \<Rightarrow>
               (case referrer_of (credit r2 (t * (3 / 100)) (credit r1 (t * (5 / 100)) us)) r2 of
                  None \<Rightarrow> credit r2 (t * (3 / 100)) (credit r1 (t * (5 / 100)) us)
                | Some r3 \<Rightarrow>
                    credit r3 (t * (1 / 100))
                      (credit r2 (t * (3 / 100)) (credit r1 (t * (5 / 100)) us)))))"
  unfolding commissions_def referrer_of_def credit_def Let_def
  by (simp split: option.splits add: add_wallet_def)

lemma commissions_wallet:
  "wallet_of (commissions uid t us) k = wallet_of us k + t * commission_rate us uid k"
proof (cases "referrer_of us uid")
  case None
  then show ?thesis
    by (simp add: commissions_walk commission_rate_def level1_def level2_def level3_def)
next
  case r1: (Some r1)
  let ?us1 = "credit r1 (t * (5 / 100)) us"
  have e1: "us r1 \<noteq> None" using r1 by (rule referrer_of_Some)
  show ?thesis
  proof (cases "referrer_of us r1")
    case None
    then show ?thesis using r1 e1
      by (simp add: commissions_walk commission_rate_def level1_def level2_def level3_def
          referrer_of_credit wallet_of_credit)
  next
    case r2: (Some r2)
    let ?us2 = "credit r2 (t * (3 / 100)) ?us1"
    have e2: "?us1 r2 \<noteq> None" using r2 by (simp add: credit_None referrer_of_Some)
    show ?thesis
    proof (cases "referrer_of us r2")
      case None
      then show ?thesis using r1 r2 e1 e2
        by (simp add: commissions_walk commission_rate_def level1_def level2_def level3_def
            referrer_of_credit wallet_of_credit algebra_simps)
    next
      case r3: (Some r3)
      have e3: "?us2 r3 \<noteq> None" using r3 by (simp add: credit_None referrer_of_Some)
      show ?thesis using r1 r2 r3 e1 e2 e3
        by (simp add: commissions_walk commission_rate_def level1_def level2_def level3_def
            referrer_of_credit wallet_of_credit algebra_simps)
    qed
  qed
qed

lemma commissions_None: "commissions uid t us k = None \<longleftrightarrow> us k = None"
  by (simp add: commissions_walk credit_None split: option.splits)

lemma referrer_of_points:
  "us uid = Some u \<Longrightarrow>
   referrer_of (us(uid \<mapsto> u\<lparr>profile := (profile u)\<lparr>points := n\<rparr>\<rparr>)) = referrer_of us"
  by (rule ext) (auto simp: referrer_of_def split: option.splits)

lemma levels_points:
  assumes "us uid = Some u"
  shows "level1 (us(uid \<mapsto> u\<lparr>profile := (profile u)\<lparr>points := n\<rparr>\<rparr>)) = level1 us"
    and "level2 (us(uid \<mapsto> u\<lparr>profile := (profile u)\<lparr>points := n\<rparr>\<rparr>)) = level2 us"
    and "level3 (us(uid \<mapsto> u\<lparr>profile := (profile u)\<lparr>points := n\<rparr>\<rparr>)) = level3 us"
  using assms
  by (simp_all add: fun_eq_iff level1_def level2_def level3_def referrer_of_points
      cong: option.case_cong)

lemma wallet_of_points:
  "us uid = Some u \<Longrightarrow>
   wallet_of (us(uid \<mapsto> u\<lparr>profile := (profile u)\<lparr>points := n\<rparr>\<rparr>)) k = wallet_of us k"
  by (simp add: wallet_of_def)

text \<open>
  What the payment route does for an order that has a timeline, that is, an order made
  by direct order creation: the commissions go up the buyer's referrer chain for at
  most three hops, whoever stands at level 1 gains 5 % of the order total, at level 2
  3 %, at level 3 1 % (\<open>commission_rate\<close> adds the rates of the levels a user stands
  at, and is 0 for everybody else); a referrer id that is absent or names no user ends
  the chain there and the payment still succeeds; paying the same order again is
  refused and changes nothing. Orders without a timeline, and orders set to paid by
  the status route, are not covered: see the theorem at the end of this section.
\<close>

theorem commission_cascade:
  assumes "users db uid = Some u" and "map_of (orders db) orderId = Some ord0"
    and "order_userId ord0 = uid" and "paymentStatus ord0 \<noteq> PaymentPaid"
    and "timeline ord0 = Some entries"
  shows "\<exists>ord pts db'.
           pay_order uid orderId db = (Inr (ord, pts), db') \<and>
           amt_total (amount ord) = amt_total (amount ord0) \<and>
           (\<forall>k. wallet_of (users db') k =
                  wallet_of (users db) k +
                  amt_total (amount ord0) * commission_rate (users db) uid k) \<and>
           pay_order uid orderId db' = (Inl AlreadyPaid, db')"
proof -
  let ?u1 = "u\<lparr>profile := (profile u)
     \<lparr>points := points (profile u) + \<lfloor>amt_total (amount ord0) * (1 / 100)\<rfloor>\<rparr>\<rparr>"
  let ?us1 = "(users db)(uid \<mapsto> ?u1)"
  let ?ord = "ord0\<lparr>paymentStatus := PaymentPaid, status := Paid,
     paidAmount := Some (amt_total (amount ord0)), timeline := Some (entries @ [Became Paid])\<rparr>"
  let ?db' = "db\<lparr>orders := map_set orderId ?ord (orders db),
     users := commissions uid (amt_total (amount ord0)) ?us1\<rparr>"
  have run: "pay_order uid orderId db =
      (Inr (?ord, \<lfloor>amt_total (amount ord0) * (1 / 100)\<rfloor>), ?db')"
    using assms by (simp add: pay_order_def Let_def)
  have rate: "commission_rate ?us1 uid k = commission_rate (users db) uid k" for k
    using assms(1) by (simp add: commission_rate_def levels_points)
  have sel: "users ?db' = commissions uid (amt_total (amount ord0)) ?us1"
    by simp
  have wal: "wallet_of (users ?db') k =
      wallet_of (users db) k + amt_total (amount ord0) * commission_rate (users db) uid k" for k
    unfolding sel commissions_wallet rate
      wallet_of_points[of "users db" uid u, OF assms(1)] ..
  have "users ?db' uid \<noteq> None"
    by (simp add: commissions_None)
  then obtain u' where u': "users ?db' uid = Some u'" by blast
  have again: "pay_order uid orderId ?db' = (Inl AlreadyPaid, ?db')"
    unfolding pay_order_def using u' assms(3) by (simp add: map_of_map_set)
  show ?thesis using run wal again by (intro exI conjI allI) (assumption | simp)+
qed

lemma shop_thousand_facts:
  "users shop_thousand 1 = Some (mk_user Customer (Some 2))"
  "map_of (orders shop_thousand) 100 = Some (the (map_of (orders shop_thousand) 100))"
  "order_userId (the (map_of (orders shop_thousand) 100)) = 1"
  "paymentStatus (the (map_of (orders shop_thousand) 100)) \<noteq> PaymentPaid"
  "timeline (the (map_of (orders shop_thousand) 100)) = Some [Created]"
  "amt_total (amount (the (map_of (orders shop_thousand) 100))) = 1000"
  by code_simp+

lemma shop_thousand_rates:
  "map (wallet_of (users shop_thousand)) [1, 2, 3, 4] = [0, 0, 0, 0]"
  "map (commission_rate (users shop_thousand) 1) [1, 2, 3, 4] = [0, 5 / 100, 3 / 100, 1 / 100]"
  by code_simp+

text \<open>
  The same at an instance: customer 1, referred by 2, referred by 3, referred by 4, pays an
  order of 1000. The wallets of 2, 3 and 4 gain 50, 30 and 10, the buyer's gains
  nothing, and a second payment of the order is refused without any change.
\<close>

theorem commission_cascade_witness:
  "users shop_thousand 1 = Some (mk_user Customer (Some 2)) \<and>
   amt_total (amount (the (map_of (orders shop_thousand) 100))) = 1000 \<and>
   \<not> isl (fst (pay_order 1 100 shop_thousand)) \<and>
   map (wallet_of (users (snd (pay_order 1 100 shop_thousand)))) [1, 2, 3, 4] = [0, 50, 30, 10] \<and>
   pay_order 1 100 (snd (pay_order 1 100 shop_thousand)) =
     (Inl AlreadyPaid, snd (pay_order 1 100 shop_thousand))"
proof -
  from commission_cascade[OF shop_thousand_facts(1-5)]
  obtain ord pts db' where
    run: "pay_order 1 100 shop_thousand = (Inr (ord, pts), db')" and
    wal: "\<And>k. wallet_of (users db') k =
       wallet_of (users shop_thousand) k +
       amt_total (amount (the (map_of (orders shop_thousand) 100))) *
       commission_rate (users shop_thousand) 1 k" and
    again: "pay_order 1 100 db' = (Inl AlreadyPaid, db')"
    by blast
  show ?thesis
    using shop_thousand_rates again run wal[of 1] wal[of 2] wal[of 3] wal[of 4]
      shop_thousand_facts(1,6)
    by simp
qed

text \<open>
  C4 (the code departs from it). When an order is paid, the level-1, level-2 and
  level-3 referrers of the buyer are to gain 5 %, 3 % and 1 % of the order total, once.
  Customer 1 has the referrers 2, 3 and 4. The order they get from the flash sale
  carries no timeline: the payment route marks it paid, fails at the push to the
  timeline before it reaches the points and the commissions, and answers 500; the
  wallets of 2, 3 and 4 stay at 0, and every later payment of the order is refused as
  already paid, so the commissions are never paid. The status route, asked for \<open>paid\<close>
  on a direct order, has no commission code at all and leaves the wallets at 0 too.
\<close>

theorem promo_order_paid_without_commission:
  "order_status_of shop_flash_bought 100 = Some Pending \<and>
   payment_status_of shop_flash_bought 100 = Some Unpaid \<and>
   map (commission_rate (users shop_flash_bought) 1) [2, 3, 4] = [5 / 100, 3 / 100, 1 / 100] \<and>
   fst (pay_order 1 100 shop_flash_bought) = Inl InternalError \<and>
   order_status_of shop_flash_paid 100 = Some Paid \<and>
   payment_status_of shop_flash_paid 100 = Some PaymentPaid \<and>
   map (wallet_of (users shop_flash_paid)) [1, 2, 3, 4] = [0, 0, 0, 0] \<and>
   points_of shop_flash_paid 1 = Some 0 \<and>
   fst (pay_order 1 100 shop_flash_paid) = Inl AlreadyPaid \<and>
   map (wallet_of (users (snd (pay_order 1 100 shop_flash_paid)))) [1, 2, 3, 4] = [0, 0, 0, 0] \<and>
   order_status_of shop_reserved 100 = Some Pending \<and>
   order_status_of shop_confirmed 100 = Some Paid \<and>
   map (wallet_of (users shop_confirmed)) [1, 2, 3, 4] = [0, 0, 0, 0]"
  by code_simp

section \<open>Flash sales\<close>

lemma purchase_rejected:
  assumes "users db uid = Some u" and "flashSales db saleId = Some fs"
  shows "now < fs_startTime fs \<Longrightarrow>
           flash_sale_purchase now uid saleId q db = (Inl PromotionNotStarted, db)"
    and "fs_startTime fs \<le> now \<Longrightarrow> fs_endTime fs < now \<Longrightarrow>
           flash_sale_purchase now uid saleId q db = (Inl PromotionEnded, db)"
    and "fs_startTime fs \<le> now \<Longrightarrow> now \<le> fs_endTime fs \<Longrightarrow>
         fs_inventory fs < soldCount fs + q \<Longrightarrow>
           flash_sale_purchase now uid saleId q db = (Inl InsufficientStock, db)"
    and "fs_startTime fs \<le> now \<Longrightarrow> now \<le> fs_endTime fs \<Longrightarrow>
         soldCount fs + q \<le> fs_inventory fs \<Longrightarrow>
         limitPerUser fs < userPurchased fs uid + q \<Longrightarrow>
           flash_sale_purchase now uid saleId q db = (Inl QuotaExceeded, db)"
  using assms by (simp_all add: flash_sale_purchase_def)

lemma purchase_admitted:
  assumes "users db uid = Some u" and "flashSales db saleId = Some fs"
    and "fs_startTime fs \<le> now" and "now \<le> fs_endTime fs"
    and "soldCount fs + q \<le> fs_inventory fs"
    and "userPurchased fs uid + q \<le> limitPerUser fs"
  shows "\<exists>ord db'. flash_sale_purchase now uid saleId q db = (Inr ord, db') \<and>
           flashSales db' = (flashSales db)(saleId \<mapsto> sold fs q uid) \<and>
           users db' = users db"
  using assms by (simp add: flash_sale_purchase_def uuidv4_def Let_def sold_def)

lemma sold_counts:
  "soldCount (sold fs q uid) = soldCount fs + q"
  "userPurchased (sold fs q uid) uid = userPurchased fs uid + q"
  "v \<noteq> uid \<Longrightarrow> userPurchased (sold fs q uid) v = userPurchased fs v"
  "fs_inventory (sold fs q uid) = fs_inventory fs"
  "limitPerUser (sold fs q uid) = limitPerUser fs"
  "fs_startTime (sold fs q uid) = fs_startTime fs"
  "fs_endTime (sold fs q uid) = fs_endTime fs"
  by (simp_all add: sold_def userPurchased_def)

lemma sold_ok:
  assumes "sale_ok fs" and "soldCount fs + q \<le> fs_inventory fs"
    and "userPurchased fs uid + q \<le> limitPerUser fs"
  shows "sale_ok (sold fs q uid)"
  unfolding sale_ok_def
proof (intro conjI allI)
  show "soldCount (sold fs q uid) \<le> fs_inventory (sold fs q uid)"
    using assms by (simp add: sold_counts)
  fix v show "userPurchased (sold fs q uid) v \<le> limitPerUser (sold fs q uid)"
    using assms by (cases "v = uid") (simp_all add: sold_counts sale_ok_def)
qed

text \<open>A purchase either leaves the state alone or passed both checks and sold.\<close>

lemma purchase_cases:
  assumes "flashSales db saleId = Some fs"
  shows "snd (flash_sale_purchase now uid saleId q db) = db \<or>
         (soldCount fs + q \<le> fs_inventory fs \<and>
          userPurchased fs uid + q \<le> limitPerUser fs \<and>
          flashSales (snd (flash_sale_purchase now uid saleId q db)) saleId =
            Some (sold fs q uid))"
  using assms
  by (simp add: flash_sale_purchase_def uuidv4_def Let_def sold_def split: option.splits)

lemma purchase_keeps_ok:
  assumes "flashSales db saleId = Some fs" and "sale_ok fs"
  shows "\<exists>fs'. flashSales (snd (flash_sale_purchase now uid saleId q db)) saleId = Some fs' \<and>
            sale_ok fs'"
  using purchase_cases[OF assms(1), of now uid q] assms sold_ok by auto

lemma purchases_keep_ok:
  "flashSales db saleId = Some fs \<Longrightarrow> sale_ok fs \<Longrightarrow>
   \<exists>fs'. flashSales (purchases reqs saleId db) saleId = Some fs' \<and> sale_ok fs'"
proof (induction reqs arbitrary: db fs)
  case Nil
  then show ?case by simp
next
  case (Cons r reqs)
  obtain now uid q where r: "r = (now, uid, q)" by (cases r)
  from purchase_keeps_ok[OF Cons.prems, of now uid q] obtain fs1 where
    "flashSales (snd (flash_sale_purchase now uid saleId q db)) saleId = Some fs1"
    "sale_ok fs1"
    by blast
  from Cons.IH[OF this] show ?case by (simp add: r)
qed

lemma second_purchase_refused:
  assumes user: "users db uid = Some u" and sale: "flashSales db saleId = Some fs"
    and limit: "limitPerUser fs = 1" and before: "0 \<le> userPurchased fs uid"
    and first: "flash_sale_purchase now uid saleId 1 db = (Inr ord, db')"
  shows "isl (fst (flash_sale_purchase now' uid saleId 1 db')) \<and>
         snd (flash_sale_purchase now' uid saleId 1 db') = db' \<and>
         (fs_startTime fs \<le> now' \<and> now' \<le> fs_endTime fs \<and>
          soldCount fs + 2 \<le> fs_inventory fs \<longrightarrow>
            flash_sale_purchase now' uid saleId 1 db' = (Inl QuotaExceeded, db'))"
proof -
  have passed: "fs_startTime fs \<le> now" "now \<le> fs_endTime fs"
    "soldCount fs + 1 \<le> fs_inventory fs" "userPurchased fs uid + 1 \<le> limitPerUser fs"
    using first user sale by (simp_all add: flash_sale_purchase_def split: if_splits)
  from purchase_admitted[OF user sale passed] first
  have db': "flashSales db' saleId = Some (sold fs 1 uid)" "users db' uid = Some u"
    using user by auto
  have over: "limitPerUser (sold fs 1 uid) < userPurchased (sold fs 1 uid) uid + 1"
    using limit before by (simp add: sold_counts)
  show ?thesis
    using over db' by (simp add: flash_sale_purchase_def sold_counts)
qed

text \<open>
  C6. A flash-sale purchase is refused with \<open>PromotionNotStarted\<close> before the window
  and with \<open>PromotionEnded\<close> after it; inside the window it is refused with
  \<open>InsufficientStock\<close> if \<open>soldCount + qty\<close> would exceed \<open>inventory\<close>, and, the stock
  sufficing, with \<open>QuotaExceeded\<close> if the user's purchased quantity plus \<open>qty\<close> would
  exceed \<open>limitPerUser\<close>; every refusal leaves the state as it was. Otherwise it
  succeeds, and \<open>soldCount\<close> and the user's purchased quantity each grow by \<open>qty\<close>.
  So a sale with \<open>soldCount \<le> inventory\<close> and every user within \<open>limitPerUser\<close> is
  still so after any sequence of purchase requests; and with \<open>limitPerUser = 1\<close>, a
  user's second purchase of one unit is refused, with \<open>QuotaExceeded\<close> whenever the
  sale is open and has stock for it (the checks before the quota check pass).
\<close>

theorem flash_sale_admission:
  assumes "users db uid = Some u" and "flashSales db saleId = Some fs"
  shows "(now < fs_startTime fs \<longrightarrow>
            flash_sale_purchase now uid saleId q db = (Inl PromotionNotStarted, db)) \<and>
         (fs_startTime fs \<le> now \<and> fs_endTime fs < now \<longrightarrow>
            flash_sale_purchase now uid saleId q db = (Inl PromotionEnded, db)) \<and>
         (fs_startTime fs \<le> now \<and> now \<le> fs_endTime fs \<and>
          fs_inventory fs < soldCount fs + q \<longrightarrow>
            flash_sale_purchase now uid saleId q db = (Inl InsufficientStock, db)) \<and>
         (fs_startTime fs \<le> now \<and> now \<le> fs_endTime fs \<and>
          soldCount fs + q \<le> fs_inventory fs \<and>
          limitPerUser fs < userPurchased fs uid + q \<longrightarrow>
            flash_sale_purchase now uid saleId q db = (Inl QuotaExceeded, db)) \<and>
         (fs_startTime fs \<le> now \<and> now \<le> fs_endTime fs \<and>
          soldCount fs + q \<le> fs_inventory fs \<and>
          userPurchased fs uid + q \<le> limitPerUser fs \<longrightarrow>
            (\<exists>ord db' fs'.
               flash_sale_purchase now uid saleId q db = (Inr ord, db') \<and>
               flashSales db' saleId = Some fs' \<and>
               soldCount fs' = soldCount fs + q \<and>
               userPurchased fs' uid = userPurchased fs uid + q \<and>
               (\<forall>v. v \<noteq> uid \<longrightarrow> userPurchased fs' v = userPurchased fs v) \<and>
               fs_inventory fs' = fs_inventory fs \<and> limitPerUser fs' = limitPerUser fs)) \<and>
         (sale_ok fs \<longrightarrow>
            (\<exists>fs'. flashSales (purchases reqs saleId db) saleId = Some fs' \<and> sale_ok fs' \<and>
                   soldCount fs' \<le> fs_inventory fs' \<and>
                   (\<forall>v. userPurchased fs' v \<le> limitPerUser fs'))) \<and>
         (limitPerUser fs = 1 \<and> 0 \<le> userPurchased fs uid \<and>
          \<not> isl (fst (flash_sale_purchase now uid saleId 1 db)) \<longrightarrow>
            isl (fst (flash_sale_purchase now' uid saleId 1
                        (snd (flash_sale_purchase now uid saleId 1 db)))) \<and>
            (fs_startTime fs \<le> now' \<and> now' \<le> fs_endTime fs \<and>
             soldCount fs + 2 \<le> fs_inventory fs \<longrightarrow>
               flash_sale_purchase now' uid saleId 1
                 (snd (flash_sale_purchase now uid saleId 1 db)) =
               (Inl QuotaExceeded, snd (flash_sale_purchase now uid saleId 1 db))))"
proof (intro conjI impI)
  assume "fs_startTime fs \<le> now \<and> now \<le> fs_endTime fs \<and>
          soldCount fs + q \<le> fs_inventory fs \<and>
          userPurchased fs uid + q \<le> limitPerUser fs"
  then obtain ord db' where
    "flash_sale_purchase now uid saleId q db = (Inr ord, db')"
    "flashSales db' = (flashSales db)(saleId \<mapsto> sold fs q uid)"
    using purchase_admitted[OF assms, of now q] by blast
  then show "\<exists>ord db' fs'.
       flash_sale_purchase now uid saleId q db = (Inr ord, db') \<and>
       flashSales db' saleId = Some fs' \<and>
       soldCount fs' = soldCount fs + q \<and>
       userPurchased fs' uid = userPurchased fs uid + q \<and>
       (\<forall>v. v \<noteq> uid \<longrightarrow> userPurchased fs' v = userPurchased fs v) \<and>
       fs_inventory fs' = fs_inventory fs \<and> limitPerUser fs' = limitPerUser fs"
    by (intro exI[of _ ord] exI[of _ db'] exI[of _ "sold fs q uid"]) (simp add: sold_counts)
next
  assume "sale_ok fs"
  from purchases_keep_ok[OF assms(2) this, of reqs]
  show "\<exists>fs'. flashSales (purchases reqs saleId db) saleId = Some fs' \<and> sale_ok fs' \<and>
       soldCount fs' \<le> fs_inventory fs' \<and> (\<forall>v. userPurchased fs' v \<le> limitPerUser fs')"
    by (auto simp: sale_ok_def)
next
  assume a: "limitPerUser fs = 1 \<and> 0 \<le> userPurchased fs uid \<and>
     \<not> isl (fst (flash_sale_purchase now uid saleId 1 db))"
  then obtain ord db' where first: "flash_sale_purchase now uid saleId 1 db = (Inr ord, db')"
    by (cases "flash_sale_purchase now uid saleId 1 db"; cases "fst (flash_sale_purchase now uid saleId 1 db)") auto
  from second_purchase_refused[OF assms _ _ first, of now'] a
  have s: "isl (fst (flash_sale_purchase now' uid saleId 1 db'))"
    "fs_startTime fs \<le> now' \<and> now' \<le> fs_endTime fs \<and> soldCount fs + 2 \<le> fs_inventory fs \<longrightarrow>
       flash_sale_purchase now' uid saleId 1 db' = (Inl QuotaExceeded, db')"
    by simp_all
  show "isl (fst (flash_sale_purchase now' uid saleId 1
                        (snd (flash_sale_purchase now uid saleId 1 db))))"
    using s(1) by (simp add: first)
  assume "fs_startTime fs \<le> now' \<and> now' \<le> fs_endTime fs \<and>
             soldCount fs + 2 \<le> fs_inventory fs"
  with s(2) show "flash_sale_purchase now' uid saleId 1
                 (snd (flash_sale_purchase now uid saleId 1 db)) =
               (Inl QuotaExceeded, snd (flash_sale_purchase now uid saleId 1 db))"
    by (simp add: first)
qed (use assms in \<open>simp_all add: purchase_rejected\<close>)

lemma shop_sale_facts:
  "users shop 1 = Some (mk_user Customer (Some 2))"
  "flashSales shop 7 = Some sale7"
  by (simp_all add: shop_def)

lemma shop_first_purchase: "\<not> isl (fst (flash_sale_purchase 50 1 7 1 shop))"
  by code_simp

lemma sale7_ok: "sale_ok sale7"
  by (simp add: sale_ok_def sale7_def userPurchased_def)

text \<open>
  C6, at an instance: the sale 7 has five units and \<open>limitPerUser = 1\<close>. Customer 1
  buys one unit at the instant 50; the same request at the instant 60 is refused with
  \<open>QuotaExceeded\<close>; and after five requests by the users 1, 2, 1, 3, 4 the sale has
  sold three units and is within its bounds.
\<close>

theorem flash_sale_admission_witness:
  "users shop 1 = Some (mk_user Customer (Some 2)) \<and> flashSales shop 7 = Some sale7 \<and>
   sale_ok sale7 \<and> limitPerUser sale7 = 1 \<and>
   \<not> isl (fst (flash_sale_purchase 50 1 7 1 shop)) \<and>
   flash_sale_purchase 60 1 7 1 (snd (flash_sale_purchase 50 1 7 1 shop)) =
     (Inl QuotaExceeded, snd (flash_sale_purchase 50 1 7 1 shop)) \<and>
   (\<exists>fs'. flashSales
            (purchases [(50, 1, 1), (51, 2, 1), (52, 1, 1), (53, 3, 1), (200, 4, 1)] 7 shop) 7 =
            Some fs' \<and> soldCount fs' \<le> fs_inventory fs' \<and>
          (\<forall>v. userPurchased fs' v \<le> limitPerUser fs'))"
proof -
  have inst: "limitPerUser sale7 = 1" "0 \<le> userPurchased sale7 1"
    "fs_startTime sale7 \<le> 60" "60 \<le> fs_endTime sale7" "soldCount sale7 + 2 \<le> fs_inventory sale7"
    by (simp_all add: sale7_def userPurchased_def)
  note adm = flash_sale_admission[OF shop_sale_facts, of 50 1
      "[(50, 1, 1), (51, 2, 1), (52, 1, 1), (53, 3, 1), (200, 4, 1)]" 60]
  have second: "flash_sale_purchase 60 1 7 1 (snd (flash_sale_purchase 50 1 7 1 shop)) =
     (Inl QuotaExceeded, snd (flash_sale_purchase 50 1 7 1 shop))"
    using adm inst shop_first_purchase by blast
  have bounds: "\<exists>fs'. flashSales
            (purchases [(50, 1, 1), (51, 2, 1), (52, 1, 1), (53, 3, 1), (200, 4, 1)] 7 shop) 7 =
            Some fs' \<and> soldCount fs' \<le> fs_inventory fs' \<and>
          (\<forall>v. userPurchased fs' v \<le> limitPerUser fs')"
    using adm sale7_ok by blast
  show ?thesis
    by (intro conjI shop_sale_facts sale7_ok inst(1) shop_first_purchase second bounds)
qed

section \<open>Status updates\<close>

text \<open>
  C5, as stated, fails: an order that was paid, shipped and delivered is set back to
  \<open>pending\<close> by a status request of the administrator, and the request succeeds.
\<close>

theorem delivered_order_reopened:
  "order_status_of shop_delivered 100 = Some Delivered \<and>
   \<not> isl (fst (update_order_status 4 100 Pending shop_delivered)) \<and>
   order_status_of (snd (update_order_status 4 100 Pending shop_delivered)) 100 = Some Pending"
  by code_simp

text \<open>
  C5, amended. The status route checks that the order exists and that the actor may
  update it, and nothing else: for an order with a timeline and an actor allowed by
  \<open>canUpdate\<close>, a request for any target status succeeds from any current status,
  \<open>delivered\<close> included, and the stored order has the target status afterwards. A
  request is refused only because the user or the order is unknown, the actor is not
  allowed, or the order has no timeline to push to.
\<close>

theorem status_update_unchecked:
  "(users db uid = Some u \<and> map_of (orders db) orderId = Some ord0 \<and>
    canUpdate uid u ord0 st (products db) \<and> timeline ord0 = Some entries \<longrightarrow>
      (\<exists>ord db'.
         update_order_status uid orderId st db = (Inr ord, db') \<and>
         status ord = st \<and> map_of (orders db') orderId = Some ord)) \<and>
   (\<forall>e. fst (update_order_status uid orderId st db) = Inl e \<longrightarrow>
      e = Unauthenticated \<or> e = OrderNotFound \<or> e = Forbidden \<or> e = InternalError)"
  by (auto simp: update_order_status_def Let_def map_of_map_set split: option.splits)

lemma shop_delivered_facts:
  "users shop_delivered 4 = Some (the (users shop_delivered 4))"
  "map_of (orders shop_delivered) 100 = Some (the (map_of (orders shop_delivered) 100))"
  "timeline (the (map_of (orders shop_delivered) 100)) =
     Some [Created, Became Paid, Became Shipped, Became Delivered]"
  "status (the (map_of (orders shop_delivered) 100)) = Delivered"
  "role (the (users shop_delivered 4)) = Admin"
  by code_simp+

text \<open>
  C5 amended, at an instance: the administrator asks for \<open>refunded\<close> on the
  delivered order 100, and the order is refunded.
\<close>

theorem status_update_unchecked_witness:
  "role (the (users shop_delivered 4)) = Admin \<and>
   status (the (map_of (orders shop_delivered) 100)) = Delivered \<and>
   canUpdate 4 (the (users shop_delivered 4)) (the (map_of (orders shop_delivered) 100))
     Refunded (products shop_delivered) \<and>
   (\<exists>ord db'.
      update_order_status 4 100 Refunded shop_delivered = (Inr ord, db') \<and>
      status ord = Refunded \<and> map_of (orders db') 100 = Some ord)"
proof -
  have may: "canUpdate 4 (the (users shop_delivered 4))
     (the (map_of (orders shop_delivered) 100)) Refunded (products shop_delivered)"
    by (simp add: canUpdate_def shop_delivered_facts(5))
  from status_update_unchecked[of shop_delivered 4 "the (users shop_delivered 4)" 100
      "the (map_of (orders shop_delivered) 100)" Refunded
      "[Created, Became Paid, Became Shipped, Became Delivered]"]
  have "\<exists>ord db'.
      update_order_status 4 100 Refunded shop_delivered = (Inr ord, db') \<and>
      status ord = Refunded \<and> map_of (orders db') 100 = Some ord"
    using shop_delivered_facts(1-3) may by blast
  then show ?thesis
    by (intro conjI shop_delivered_facts(4,5) may)
qed

section \<open>Order lines and amounts\<close>

lemma itemPrice_role_price: "itemPrice r product = role_price r (price product)"
  by (cases r) (simp_all add: itemPrice_def role_price_def)

lemma priced_for_reserved:
  assumes "ps k = Some product" and "price product' = price product"
  shows "priced_for r (ps(k \<mapsto> product')) = priced_for r ps"
  using assms by (auto simp: priced_for_def fun_eq_iff)

text \<open>
  The loop, when it runs to its end, has appended one line per requested item, at the
  price of the requester's role, and has added the line totals to the running total.
\<close>

lemma reserve_items_lines:
  "reserve_items r its ps t acc = (None, ps', t', acc') \<Longrightarrow>
   \<exists>new. acc' = acc @ new \<and> list_all2 (priced_for r ps) its new \<and>
         t' = t + sum_list (map item_total new)"
proof (induction its arbitrary: ps t acc)
  case Nil
  then show ?case by simp
next
  case (Cons item rest)
  from Cons.prems obtain product where p: "ps (req_productId item) = Some product"
    by (auto split: option.splits)
  let ?line = "\<lparr>item_productId = req_productId item, item_price = itemPrice r product,
     item_quantity = req_quantity item,
     item_total = itemPrice r product * of_int (req_quantity item)\<rparr>"
  let ?product' = "product\<lparr>inventory := (inventory product)
     \<lparr>available := available (inventory product) - req_quantity item,
      reserved := reserved (inventory product) + req_quantity item\<rparr>\<rparr>"
  from Cons.prems p have
    rest: "reserve_items r rest (ps(req_productId item \<mapsto> ?product'))
       (t + item_total ?line) (acc @ [?line]) = (None, ps', t', acc')"
    by (simp add: Let_def split: if_splits)
  from Cons.IH[OF rest] obtain new where new: "acc' = (acc @ [?line]) @ new"
    "list_all2 (priced_for r (ps(req_productId item \<mapsto> ?product'))) rest new"
    "t' = t + item_total ?line + sum_list (map item_total new)"
    by blast
  have same: "priced_for r (ps(req_productId item \<mapsto> ?product')) = priced_for r ps"
    using p by (rule priced_for_reserved) simp
  have line: "priced_for r ps item ?line"
    using p by (simp add: priced_for_def itemPrice_role_price)
  show ?case
    using new line unfolding same
    by (intro exI[of _ "?line # new"]) simp
qed

lemma create_order_lines:
  assumes "users db uid = Some u" and "create_order uid req db = (Inr ord, db')"
  shows "list_all2 (priced_for (role u) (products db)) (req_items req) (items ord) \<and>
         amt_subtotal (amount ord) = sum_list (map item_total (items ord)) \<and>
         amt_total (amount ord) = amt_subtotal (amount ord) - amt_discount (amount ord)"
proof -
  obtain e ps t acc where
    r: "reserve_items (role u) (req_items req) (products db) 0 [] = (e, ps, t, acc)"
    by (metis prod_cases4)
  with assms have e: "e = None"
    by (cases e) (auto simp: create_order_def split: if_splits)
  from reserve_items_lines[OF r[unfolded e]] have
    acc: "list_all2 (priced_for (role u) (products db)) (req_items req) acc"
      "t = sum_list (map item_total acc)"
    by auto
  from assms r e have "items ord = acc \<and> amt_subtotal (amount ord) = t \<and>
      amt_total (amount ord) = amt_subtotal (amount ord) - amt_discount (amount ord)"
    by (auto simp: create_order_def Let_def uuidv4_def
        split: if_splits prod.splits option.splits order_type.splits)
  with acc show ?thesis by simp
qed

lemma create_order_user:
  "create_order uid req db = (Inr ord, db') \<Longrightarrow> \<exists>u. users db uid = Some u"
  by (auto simp: create_order_def split: option.splits)

subsection \<open>Promotional orders\<close>

lemma flash_order_amounts:
  "promo_amounts (fs_originalPrice fs) (salePrice fs) (flash_order oid uid fs q saleId)"
  by (simp add: promo_amounts_def flash_order_def)

lemma group_order_amounts:
  "promo_amounts (act_originalPrice act) (groupPrice act) (group_order oid activityId act gid p)"
  by (simp add: promo_amounts_def group_order_def)

lemma set_map_set: "e \<in> set (map_set k v xs) \<Longrightarrow> e \<in> set xs \<or> e = (k, v)"
  by (induction xs) (auto split: if_splits)

lemma fan_out_new_orders:
  "e \<in> set (orders (fan_out activityId act gid ps db)) \<Longrightarrow>
   e \<in> set (orders db) \<or> promo_amounts (act_originalPrice act) (groupPrice act) (snd e)"
proof (induction ps arbitrary: db)
  case Nil
  then show ?case by simp
next
  case (Cons p ps)
  let ?n = "uuid_next db"
  let ?db4 = "db\<lparr>uuid_next := Suc (Suc ?n),
      orders := map_set ?n (group_order ?n activityId act gid p) (orders db),
      notifications := notifications db @ expected_notes ?n [p]\<rparr>"
  have step: "fan_out activityId act gid (p # ps) db = fan_out activityId act gid ps ?db4"
    unfolding fan_out.simps uuidv4_def Let_def prod.case
    by (rule arg_cong[where f = "fan_out activityId act gid ps"], rule database.equality)
      simp_all
  from Cons.prems[unfolded step] Cons.IH[of ?db4]
  have "e \<in> set (orders ?db4) \<or> promo_amounts (act_originalPrice act) (groupPrice act) (snd e)"
    by blast
  then show ?case
    using group_order_amounts[of act ?n activityId gid p]
    by (auto dest!: set_map_set)
qed

lemma admit_new_orders:
  "e \<in> set (orders (snd (admit uid u activityId act gid g q db))) \<Longrightarrow>
   e \<in> set (orders db) \<or> promo_amounts (act_originalPrice act) (groupPrice act) (snd e)"
  by (auto simp: admit_def Let_def dest: fan_out_new_orders split: if_splits)

lemma join_new_orders:
  assumes "groupBuyingActivities db activityId = Some act"
    and "e \<in> set (orders (snd (group_buying_join now uid activityId groupId q db)))"
  shows "e \<in> set (orders db) \<or> promo_amounts (act_originalPrice act) (groupPrice act) (snd e)"
proof (cases "users db uid")
  case None
  with assms show ?thesis by (simp add: group_buying_join_def)
next
  case (Some u)
  show ?thesis
  proof (cases "now < act_startTime act \<or> now > act_endTime act")
    case True
    with assms Some show ?thesis by (simp add: group_buying_join_def)
  next
    case False
    show ?thesis
    proof (cases "resolve_group uid activityId act groupId db")
      case (Inl err)
      with assms Some False show ?thesis by (simp add: group_buying_join_def)
    next
      case (Inr r)
      obtain gid g act1 db1 where r: "r = (gid, g, act1, db1)" by (cases r)
      have same: "orders db1 = orders db" "act_originalPrice act1 = act_originalPrice act"
        "groupPrice act1 = groupPrice act"
        using Inr r
        by (auto simp: resolve_group_def uuidv4_def Let_def split: option.splits if_splits)
      have "group_buying_join now uid activityId groupId q db =
          admit uid u activityId act1 gid g q db1"
        using assms(1) Some False Inr r by (simp add: group_buying_join_def)
      with assms(2) admit_new_orders[of e uid u activityId act1 gid g q db1]
      show ?thesis by (simp add: same)
    qed
  qed
qed

text \<open>
  C9, as stated, fails: the flash-sale order of one unit at the sale price 60 (original
  price 100) has subtotal 60, discount 40 and total 60, not 60 - 40.
\<close>

theorem flash_sale_total_ignores_discount:
  "\<not> isl (fst (flash_sale_purchase 50 1 7 1 shop)) \<and>
   amount (projr (fst (flash_sale_purchase 50 1 7 1 shop))) =
     \<lparr>amt_subtotal = 60, amt_discount = 40, amt_total = 60\<rparr> \<and>
   amt_total (amount (projr (fst (flash_sale_purchase 50 1 7 1 shop)))) \<noteq>
     amt_subtotal (amount (projr (fst (flash_sale_purchase 50 1 7 1 shop)))) -
     amt_discount (amount (projr (fst (flash_sale_purchase 50 1 7 1 shop))))"
  by code_simp

text \<open>
  C9, amended. Every order made by direct order creation has
  \<open>amount.total = amount.subtotal - amount.discount\<close>, and its line totals sum to
  \<open>amount.subtotal\<close>. Every order made by a flash-sale purchase or written when a
  group fills up has one line, at the promotional price; its line total,
  \<open>amount.subtotal\<close> and \<open>amount.total\<close> are all the promotional price times the
  quantity, and \<open>amount.discount\<close> records (original price - promotional price) times
  the quantity without being subtracted.
\<close>

theorem order_amounts:
  "(create_order uid req db = (Inr ord, db') \<longrightarrow>
      amt_total (amount ord) = amt_subtotal (amount ord) - amt_discount (amount ord) \<and>
      sum_list (map item_total (items ord)) = amt_subtotal (amount ord)) \<and>
   (flashSales db saleId = Some fs \<and>
    flash_sale_purchase now uid saleId q db = (Inr ord, db') \<longrightarrow>
      promo_amounts (fs_originalPrice fs) (salePrice fs) ord \<and>
      sum_list (map item_total (items ord)) = amt_subtotal (amount ord) \<and>
      amt_total (amount ord) = amt_subtotal (amount ord)) \<and>
   (groupBuyingActivities db activityId = Some act \<and>
    e \<in> set (orders (snd (group_buying_join now uid activityId groupId q db))) \<and>
    e \<notin> set (orders db) \<longrightarrow>
      promo_amounts (act_originalPrice act) (groupPrice act) (snd e) \<and>
      sum_list (map item_total (items (snd e))) = amt_subtotal (amount (snd e)) \<and>
      amt_total (amount (snd e)) = amt_subtotal (amount (snd e)))"
proof (intro conjI impI)
  assume c: "create_order uid req db = (Inr ord, db')"
  then obtain u where "users db uid = Some u" using create_order_user by blast
  from create_order_lines[OF this c]
  show "amt_total (amount ord) = amt_subtotal (amount ord) - amt_discount (amount ord)"
    and "sum_list (map item_total (items ord)) = amt_subtotal (amount ord)"
    by simp_all
next
  assume f: "flashSales db saleId = Some fs \<and>
    flash_sale_purchase now uid saleId q db = (Inr ord, db')"
  then have ord: "ord = flash_order (uuid_next db) uid fs q saleId"
    by (auto simp: flash_sale_purchase_def uuidv4_def Let_def split: option.splits if_splits)
  show "promo_amounts (fs_originalPrice fs) (salePrice fs) ord"
    unfolding ord by (rule flash_order_amounts)
  show "sum_list (map item_total (items ord)) = amt_subtotal (amount ord)"
    and "amt_total (amount ord) = amt_subtotal (amount ord)"
    unfolding ord by (simp_all add: flash_order_def)
next
  assume g: "groupBuyingActivities db activityId = Some act \<and>
    e \<in> set (orders (snd (group_buying_join now uid activityId groupId q db))) \<and>
    e \<notin> set (orders db)"
  with join_new_orders[of db activityId act e now uid groupId q]
  show p: "promo_amounts (act_originalPrice act) (groupPrice act) (snd e)"
    by blast
  then show "sum_list (map item_total (items (snd e))) = amt_subtotal (amount (snd e))"
    and "amt_total (amount (snd e)) = amt_subtotal (amount (snd e))"
    by (auto simp: promo_amounts_def split: list.splits)
qed


lemma success_shape: "\<not> isl (fst r) \<Longrightarrow> r = (Inr (projr (fst r)), snd r)"
  by (cases r; cases "fst r") auto

lemma shop_coupon_order:
  "\<not> isl (fst (create_order 1 (order_req [(1, 5)] (Some ''HALF'')) shop))"
  "amount (projr (fst (create_order 1 (order_req [(1, 5)] (Some ''HALF'')) shop))) =
     \<lparr>amt_subtotal = 500, amt_discount = 50, amt_total = 450\<rparr>"
  by code_simp+

text \<open>
  C9 amended, at an instance: the order of five units at 100 with the coupon has
  subtotal 500, discount 50 and total 450, and its one line total is 500; the
  flash-sale order of one unit has subtotal and total 60.
\<close>

theorem order_amounts_witness:
  "\<not> isl (fst (create_order 1 (order_req [(1, 5)] (Some ''HALF'')) shop)) \<and>
   amount (projr (fst (create_order 1 (order_req [(1, 5)] (Some ''HALF'')) shop))) =
     \<lparr>amt_subtotal = 500, amt_discount = 50, amt_total = 450\<rparr> \<and>
   sum_list (map item_total
     (items (projr (fst (create_order 1 (order_req [(1, 5)] (Some ''HALF'')) shop))))) = 500 \<and>
   flashSales shop 7 = Some sale7 \<and>
   \<not> isl (fst (flash_sale_purchase 50 1 7 1 shop)) \<and>
   promo_amounts 100 60 (projr (fst (flash_sale_purchase 50 1 7 1 shop)))"
proof -
  let ?c = "create_order 1 (order_req [(1, 5)] (Some ''HALF'')) shop"
  let ?f = "flash_sale_purchase 50 1 7 1 shop"
  have c: "?c = (Inr (projr (fst ?c)), snd ?c)"
    using shop_coupon_order(1) by (rule success_shape)
  have f: "?f = (Inr (projr (fst ?f)), snd ?f)"
    using shop_first_purchase by (rule success_shape)
  from order_amounts[of 1 "order_req [(1, 5)] (Some ''HALF'')" shop "projr (fst ?c)" "snd ?c"] c
  have lines: "sum_list (map item_total (items (projr (fst ?c)))) =
      amt_subtotal (amount (projr (fst ?c)))"
    by blast
  from order_amounts[of _ _ shop "projr (fst ?f)" "snd ?f" 7 sale7 50 1 1] f shop_sale_facts(2)
  have "promo_amounts (fs_originalPrice sale7) (salePrice sale7) (projr (fst ?f))"
    by blast
  then have promo: "promo_amounts 100 60 (projr (fst ?f))"
    by (simp add: sale7_def)
  show ?thesis
    using lines promo shop_coupon_order shop_sale_facts(2) shop_first_purchase
    by simp
qed

section \<open>Prices by role\<close>

lemma shop_role_orders:
  "\<not> isl (fst (create_order 1 (order_req [(1, 3)] None) shop))"
  "\<not> isl (fst (create_order 2 (order_req [(1, 3)] None) shop))"
  "amt_total (amount (projr (fst (create_order 1 (order_req [(1, 3)] None) shop)))) = 300"
  "amt_total (amount (projr (fst (create_order 2 (order_req [(1, 3)] None) shop)))) = 240"
  "map item_price (items (projr (fst (create_order 2 (order_req [(1, 3)] None) shop)))) = [80]"
  by code_simp+

text \<open>
  C10. In a direct order, each line carries the product's price for the requesting
  user's role: the distributor price for a distributor, the retailer price for a
  retailer, the selling price for everybody else (\<open>priced_for\<close> reads the prices in
  the products as they were before the request). So one item list can give different
  totals to different buyers.
\<close>

theorem role_based_pricing:
  "(users db uid = Some u \<and> create_order uid req db = (Inr ord, db') \<longrightarrow>
      list_all2 (priced_for (role u) (products db)) (req_items req) (items ord)) \<and>
   role_price Distributor pr = distributor pr \<and>
   role_price Retailer pr = retailer pr \<and>
   (r \<noteq> Distributor \<and> r \<noteq> Retailer \<longrightarrow> role_price r pr = selling pr) \<and>
   (\<exists>db0 uid1 uid2 req0 ord1 ord2 db1 db2.
      create_order uid1 req0 db0 = (Inr ord1, db1) \<and>
      create_order uid2 req0 db0 = (Inr ord2, db2) \<and>
      amt_total (amount ord1) \<noteq> amt_total (amount ord2))"
proof (intro conjI impI)
  assume "users db uid = Some u \<and> create_order uid req db = (Inr ord, db')"
  then show "list_all2 (priced_for (role u) (products db)) (req_items req) (items ord)"
    using create_order_lines by blast
next
  assume "r \<noteq> Distributor \<and> r \<noteq> Retailer"
  then show "role_price r pr = selling pr"
    by (cases r) (simp_all add: role_price_def)
next
  let ?c1 = "create_order 1 (order_req [(1, 3)] None) shop"
  let ?c2 = "create_order 2 (order_req [(1, 3)] None) shop"
  have "?c1 = (Inr (projr (fst ?c1)), snd ?c1)" "?c2 = (Inr (projr (fst ?c2)), snd ?c2)"
    by (rule success_shape, rule shop_role_orders(1), rule success_shape,
        rule shop_role_orders(2))
  moreover have "amt_total (amount (projr (fst ?c1))) \<noteq> amt_total (amount (projr (fst ?c2)))"
    unfolding shop_role_orders(3,4) by simp
  ultimately show "\<exists>db0 uid1 uid2 req0 ord1 ord2 db1 db2.
      create_order uid1 req0 db0 = (Inr ord1, db1) \<and>
      create_order uid2 req0 db0 = (Inr ord2, db2) \<and>
      amt_total (amount ord1) \<noteq> amt_total (amount ord2)"
    by blast
qed (simp_all add: role_price_def)

text \<open>
  C10, at an instance: the distributor 2 orders three units of product 1 (selling
  price 100, distributor price 80) and is charged 80 a unit, 240 in total, where the
  customer 1 pays 300 for the same items.
\<close>

theorem role_based_pricing_witness:
  "users shop 2 = Some (mk_user Distributor (Some 3)) \<and>
   \<not> isl (fst (create_order 2 (order_req [(1, 3)] None) shop)) \<and>
   list_all2 (priced_for Distributor (products shop)) (req_items (order_req [(1, 3)] None))
     (items (projr (fst (create_order 2 (order_req [(1, 3)] None) shop)))) \<and>
   map item_price (items (projr (fst (create_order 2 (order_req [(1, 3)] None) shop)))) = [80] \<and>
   amt_total (amount (projr (fst (create_order 2 (order_req [(1, 3)] None) shop)))) = 240 \<and>
   amt_total (amount (projr (fst (create_order 1 (order_req [(1, 3)] None) shop)))) = 300"
proof -
  let ?c2 = "create_order 2 (order_req [(1, 3)] None) shop"
  have u: "users shop 2 = Some (mk_user Distributor (Some 3))"
    by (simp add: shop_def)
  have c: "?c2 = (Inr (projr (fst ?c2)), snd ?c2)"
    using shop_role_orders(2) by (rule success_shape)
  from role_based_pricing[of shop 2 "mk_user Distributor (Some 3)" "order_req [(1, 3)] None"
      "projr (fst ?c2)" "snd ?c2"] u c
  have "list_all2 (priced_for (role (mk_user Distributor (Some 3))) (products shop))
      (req_items (order_req [(1, 3)] None)) (items (projr (fst ?c2)))"
    by blast
  then have "list_all2 (priced_for Distributor (products shop))
      (req_items (order_req [(1, 3)] None)) (items (projr (fst ?c2)))"
    by (simp add: mk_user_def)
  then show ?thesis
    by (intro conjI u shop_role_orders)
qed

section \<open>Group completion\<close>

lemma map_set_fresh: "k \<notin> set (map fst xs) \<Longrightarrow> map_set k v xs = xs @ [(k, v)]"
  by (induction xs) auto

lemma expected_orders_summary:
  "map order_summary (expected_orders n activityId act gid ps) =
     map (\<lambda>p. (p_userId p, Some gid, groupPrice act * of_int (p_quantity p))) ps"
  by (induction ps arbitrary: n) (simp_all add: order_summary_def group_order_def)

lemma expected_orders_keys:
  "(k, v) \<in> set (expected_orders n activityId act gid ps) \<Longrightarrow> k < n + 2 * length ps"
  by (induction ps arbitrary: n) force+

lemma expected_notes_recipients: "map recipientId (expected_notes n ps) = map p_userId ps"
  by (induction ps arbitrary: n) simp_all

text \<open>
  With fresh identifiers, the fan-out appends one order and one notification per
  participant and touches nothing else.
\<close>

lemma fan_out_effect:
  "ids_fresh db \<Longrightarrow>
   fan_out activityId act gid ps db =
     db\<lparr>orders := orders db @ expected_orders (uuid_next db) activityId act gid ps,
        notifications := notifications db @ expected_notes (uuid_next db) ps,
        uuid_next := uuid_next db + 2 * length ps\<rparr>"
proof (induction ps arbitrary: db)
  case Nil
  then show ?case by simp
next
  case (Cons p ps)
  let ?n = "uuid_next db"
  let ?db4 = "db\<lparr>orders := orders db @ [(?n, group_order ?n activityId act gid p)],
      notifications := notifications db @ expected_notes ?n [p], uuid_next := ?n + 2\<rparr>"
  have notin: "?n \<notin> set (map fst (orders db))"
    using Cons.prems by (auto simp: ids_fresh_def)
  have step: "fan_out activityId act gid (p # ps) db = fan_out activityId act gid ps ?db4"
    unfolding fan_out.simps uuidv4_def Let_def prod.case
    by (rule arg_cong[where f = "fan_out activityId act gid ps"], rule database.equality)
      (simp_all add: map_set_fresh[OF notin])
  have fresh: "ids_fresh ?db4"
    using Cons.prems by (auto simp: ids_fresh_def)
  show ?case
    unfolding step Cons.IH[OF fresh] by simp
qed

lemma fan_out_fresh:
  assumes "ids_fresh db"
  shows "ids_fresh (fan_out activityId act gid ps db)"
  unfolding fan_out_effect[OF assms] using assms
  by (auto simp: ids_fresh_def dest: expected_orders_keys)

lemma join_outcome_cong:
  "orders db1 = orders db \<Longrightarrow> notifications db1 = notifications db \<Longrightarrow>
   groupPrice act1 = groupPrice act \<Longrightarrow>
   join_outcome db1 act1 db' g' = join_outcome db act db' g'"
  by (simp add: join_outcome_def)

lemma admit_outcome:
  assumes ok: "group_ok g" and rec: "group_status g = Recruiting"
    and new: "uid \<notin> set (map p_userId (participants g))" and fresh: "ids_fresh db"
  shows "\<exists>g' act' db'.
           admit uid u activityId act gid g q db = (Inr (g', act'), db') \<and>
           groupBuyingGroups db' gid = Some g' \<and>
           g' = (joined g uid u q)\<lparr>group_status := group_status g'\<rparr> \<and>
           join_outcome db act db' g'"
proof -
  let ?g1 = "joined g uid u q"
  let ?act' = "act\<lparr>totalParticipants := totalParticipants act + 1\<rparr>"
  have nodup: "\<not> list_ex (\<lambda>p. p_userId p = uid) (participants g)"
    using new by (auto simp: list_ex_iff)
  have size: "currentSize g = int (length (participants g))" "currentSize g < requiredSize g"
    using ok rec by (simp_all add: group_ok_def)
  show ?thesis
  proof (cases "requiredSize g \<le> currentSize g + 1")
    case True
    then have full: "currentSize g + 1 = requiredSize g" using size by simp
    let ?g2 = "?g1\<lparr>group_status := Completed\<rparr>"
    let ?db1 = "fan_out activityId act (group_id g) (participants ?g1) db"
    let ?db' = "?db1\<lparr>groupBuyingGroups := (groupBuyingGroups ?db1)(gid \<mapsto> ?g2),
       groupBuyingActivities := (groupBuyingActivities ?db1)(activityId \<mapsto> ?act')\<rparr>"
    have run: "admit uid u activityId act gid g q db = (Inr (?g2, ?act'), ?db')"
      using nodup True by (simp add: admit_def joined_def new_participant_def Let_def)
    have g2: "group_ok ?g2" "currentSize ?g2 = requiredSize ?g2" "group_status ?g2 = Completed"
      using size full by (simp_all add: group_ok_def joined_def)
    have fresh': "ids_fresh ?db'"
      using fan_out_fresh[OF fresh, of activityId act "group_id g" "participants ?g1"]
      by (simp add: ids_fresh_def)
    have ords: "orders ?db' = orders db @
        expected_orders (uuid_next db) activityId act (group_id g) (participants ?g1)"
      and msgs: "notifications ?db' = notifications db @
        expected_notes (uuid_next db) (participants ?g1)"
      by (simp_all add: fan_out_effect[OF fresh])
    have "join_outcome db act ?db' ?g2"
      unfolding join_outcome_def
      using g2 fresh' ords msgs
      by (auto simp: expected_orders_summary expected_notes_recipients joined_def
          intro!: exI[of _ "expected_orders (uuid_next db) activityId act (group_id g)
             (participants ?g1)"])
    then show ?thesis using run by (intro exI conjI) (assumption | simp)+
  next
    case False
    let ?db' = "db\<lparr>groupBuyingGroups := (groupBuyingGroups db)(gid \<mapsto> ?g1),
       groupBuyingActivities := (groupBuyingActivities db)(activityId \<mapsto> ?act')\<rparr>"
    have run: "admit uid u activityId act gid g q db = (Inr (?g1, ?act'), ?db')"
      using nodup False by (simp add: admit_def joined_def new_participant_def Let_def)
    have "join_outcome db act ?db' ?g1"
      using False size rec fresh
      by (simp add: join_outcome_def group_ok_def joined_def ids_fresh_def)
    then show ?thesis using run by (intro exI conjI) (assumption | simp add: joined_def)+
  qed
qed

lemma join_full_group:
  assumes "users db uid = Some u" and "groupBuyingActivities db activityId = Some act"
    and "act_startTime act \<le> now" and "now \<le> act_endTime act"
    and "groupBuyingGroups db gid = Some g" and "group_status g \<noteq> Recruiting"
  shows "group_buying_join now uid activityId (Some gid) q db = (Inl GroupFull, db)"
  using assms by (simp add: group_buying_join_def resolve_group_def)

lemma join_existing_group:
  assumes user: "users db uid = Some u"
    and act: "groupBuyingActivities db activityId = Some act"
    and window: "act_startTime act \<le> now" "now \<le> act_endTime act"
    and fresh: "ids_fresh db"
    and grp: "groupBuyingGroups db gid = Some g" and ok: "group_ok g"
    and rec: "group_status g = Recruiting"
    and new: "uid \<notin> set (map p_userId (participants g))"
  shows "\<exists>g' act' db'.
           group_buying_join now uid activityId (Some gid) q db = (Inr (g', act'), db') \<and>
           groupBuyingGroups db' gid = Some g' \<and>
           participants g' = participants g @ [new_participant uid u q] \<and>
           currentSize g' = currentSize g + 1 \<and> requiredSize g' = requiredSize g \<and>
           group_id g' = group_id g \<and> join_outcome db act db' g'"
proof -
  have run: "group_buying_join now uid activityId (Some gid) q db =
      admit uid u activityId act gid g q db"
    using user act window grp rec by (simp add: group_buying_join_def resolve_group_def)
  from admit_outcome[OF ok rec new fresh, of u activityId act gid q]
  obtain g' act' db' where a: "admit uid u activityId act gid g q db = (Inr (g', act'), db')"
    "groupBuyingGroups db' gid = Some g'"
    "g' = (joined g uid u q)\<lparr>group_status := group_status g'\<rparr>"
    "join_outcome db act db' g'"
    by blast
  have "participants g' = participants g @ [new_participant uid u q] \<and>
        currentSize g' = currentSize g + 1 \<and> requiredSize g' = requiredSize g \<and>
        group_id g' = group_id g"
    by (subst (1 2 3 4) a(3)) (simp add: joined_def)
  with a show ?thesis unfolding run by blast
qed

lemma join_new_group:
  assumes user: "users db uid = Some u"
    and act: "groupBuyingActivities db activityId = Some act"
    and window: "act_startTime act \<le> now" "now \<le> act_endTime act"
    and fresh: "ids_fresh db"
    and size: "1 \<le> groupSize act"
  shows "\<exists>g' act' db'.
           group_buying_join now uid activityId None q db = (Inr (g', act'), db') \<and>
           groupBuyingGroups db' (uuid_next db) = Some g' \<and>
           participants g' = [new_participant uid u q] \<and>
           currentSize g' = 1 \<and> requiredSize g' = groupSize act \<and>
           group_id g' = uuid_next db \<and> join_outcome db act db' g'"
proof -
  let ?gid = "uuid_next db"
  let ?g = "\<lparr>group_id = ?gid, group_activityId = activityId, leaderId = uid,
     participants = [], requiredSize = groupSize act, currentSize = 0,
     group_status = Recruiting\<rparr>"
  let ?act1 = "act\<lparr>currentGroups := currentGroups act + 1\<rparr>"
  let ?db1 = "db\<lparr>uuid_next := Suc ?gid,
     groupBuyingGroups := (groupBuyingGroups db)(?gid \<mapsto> ?g),
     groupBuyingActivities := (groupBuyingActivities db)(activityId \<mapsto> ?act1)\<rparr>"
  have res: "resolve_group uid activityId act None db = Inr (?gid, ?g, ?act1, ?db1)"
    by (simp add: resolve_group_def uuidv4_def Let_def)
  have run: "group_buying_join now uid activityId None q db =
      admit uid u activityId ?act1 ?gid ?g q ?db1"
    using user act window by (simp add: group_buying_join_def res)
  have ok: "group_ok ?g" using size by (simp add: group_ok_def)
  have fresh1: "ids_fresh ?db1" using fresh by (auto simp: ids_fresh_def)
  from admit_outcome[OF ok _ _ fresh1, of uid u activityId ?act1 ?gid q]
  obtain g' act' db' where a: "admit uid u activityId ?act1 ?gid ?g q ?db1 = (Inr (g', act'), db')"
    "groupBuyingGroups db' ?gid = Some g'"
    "g' = (joined ?g uid u q)\<lparr>group_status := group_status g'\<rparr>"
    "join_outcome ?db1 ?act1 db' g'"
    by auto
  have shape: "participants g' = [new_participant uid u q] \<and>
        currentSize g' = 1 \<and> requiredSize g' = groupSize act \<and> group_id g' = ?gid"
    by (subst (1 2 3 4) a(3)) (simp add: joined_def)
  have "join_outcome db act db' g'"
    using a(4) by (simp add: join_outcome_cong[of ?db1 db ?act1 act])
  with a shape show ?thesis unfolding run by blast
qed

text \<open>
  What a join does, inside the window of the activity named in the request and with
  identifiers fresh:
  a group that is no longer recruiting refuses every join and nothing changes, so a
  completed group is never completed again;
  a join to a recruiting group by a user not yet in it adds the user and makes the size
  one larger, and \<open>join_outcome\<close> says the rest: the group is completed exactly if the
  new size equals the required size; if not, no order and no notification is written;
  if so, the orders written are exactly one per participant, and the notifications one
  per participant;
  a join without a group id to an activity for groups of at least one opens a group
  with the user as its only participant, with the same outcome.
  The price of each order is the group price of \<open>act\<close>, the activity named in the
  request, times the participant's quantity. Nothing ties that activity to the
  activity the group was opened for: see the theorem at the end of this section.
\<close>

theorem group_completes_once:
  assumes "users db uid = Some u" and "groupBuyingActivities db activityId = Some act"
    and "act_startTime act \<le> now" and "now \<le> act_endTime act" and "ids_fresh db"
  shows "(groupBuyingGroups db gid = Some g \<and> group_status g \<noteq> Recruiting \<longrightarrow>
            group_buying_join now uid activityId (Some gid) q db = (Inl GroupFull, db)) \<and>
         (groupBuyingGroups db gid = Some g \<and> group_ok g \<and> group_status g = Recruiting \<and>
          uid \<notin> set (map p_userId (participants g)) \<longrightarrow>
            (\<exists>g' act' db'.
               group_buying_join now uid activityId (Some gid) q db = (Inr (g', act'), db') \<and>
               groupBuyingGroups db' gid = Some g' \<and>
               participants g' = participants g @ [new_participant uid u q] \<and>
               currentSize g' = currentSize g + 1 \<and> requiredSize g' = requiredSize g \<and>
               group_id g' = group_id g \<and> join_outcome db act db' g')) \<and>
         (1 \<le> groupSize act \<longrightarrow>
            (\<exists>g' act' db'.
               group_buying_join now uid activityId None q db = (Inr (g', act'), db') \<and>
               groupBuyingGroups db' (uuid_next db) = Some g' \<and>
               participants g' = [new_participant uid u q] \<and>
               currentSize g' = 1 \<and> requiredSize g' = groupSize act \<and>
               group_id g' = uuid_next db \<and> join_outcome db act db' g'))"
  using join_full_group[OF assms(1-4)] join_existing_group[OF assms]
    join_new_group[OF assms]
  by blast


lemma shop_group_reached:
  "groupBuyingGroups
     (snd (group_buying_join 50 2 9 (Some 100) 1 (snd (group_buying_join 50 1 9 None 2 shop))))
     100 = groupBuyingGroups shop_group_of_two 100"
  "groupBuyingActivities
     (snd (group_buying_join 50 2 9 (Some 100) 1 (snd (group_buying_join 50 1 9 None 2 shop))))
     9 = groupBuyingActivities shop_group_of_two 9"
  "orders
     (snd (group_buying_join 50 2 9 (Some 100) 1 (snd (group_buying_join 50 1 9 None 2 shop)))) =
   orders shop_group_of_two"
  "uuid_next
     (snd (group_buying_join 50 2 9 (Some 100) 1 (snd (group_buying_join 50 1 9 None 2 shop)))) =
   uuid_next shop_group_of_two"
  by code_simp+

lemma shop_group_facts:
  "users shop_group_of_two 3 = Some (mk_user Retailer (Some 4))"
  "groupBuyingActivities shop_group_of_two 9 =
     Some (the (groupBuyingActivities shop_group_of_two 9))"
  "act_startTime (the (groupBuyingActivities shop_group_of_two 9)) \<le> 50"
  "50 \<le> act_endTime (the (groupBuyingActivities shop_group_of_two 9))"
  "ids_fresh shop_group_of_two"
  "groupBuyingGroups shop_group_of_two 100 = Some (the (groupBuyingGroups shop_group_of_two 100))"
  "group_ok (the (groupBuyingGroups shop_group_of_two 100))"
  "group_status (the (groupBuyingGroups shop_group_of_two 100)) = Recruiting"
  "3 \<notin> set (map p_userId (participants (the (groupBuyingGroups shop_group_of_two 100))))"
  by code_simp+

lemmas join_eval =
  group_buying_join_def resolve_group_def admit_def uuidv4_def Let_def shop_group_of_two_def
  shop_def act9_def mk_user_def order_summary_def group_order_def

lemma shop_group_third_join:
  "requiredSize (the (groupBuyingGroups shop_group_of_two 100)) = 3"
  "currentSize (the (groupBuyingGroups shop_group_of_two 100)) = 2"
  "orders shop_group_of_two = []"
  "\<not> isl (fst (group_buying_join 50 3 9 (Some 100) 1 shop_group_of_two))"
  "group_status (fst (projr (fst (group_buying_join 50 3 9 (Some 100) 1 shop_group_of_two)))) =
     Completed"
  "map order_summary (orders (snd (group_buying_join 50 3 9 (Some 100) 1 shop_group_of_two))) =
     [(1, Some 100, 60), (2, Some 100, 30), (3, Some 100, 30)]"
  "map recipientId (notifications (snd (group_buying_join 50 3 9 (Some 100) 1 shop_group_of_two))) =
     [1, 2, 3]"
  "fst (group_buying_join 50 4 9 (Some 100) 1
          (snd (group_buying_join 50 3 9 (Some 100) 1 shop_group_of_two))) = Inl GroupFull"
  "orders (snd (group_buying_join 50 4 9 (Some 100) 1
          (snd (group_buying_join 50 3 9 (Some 100) 1 shop_group_of_two)))) =
   orders (snd (group_buying_join 50 3 9 (Some 100) 1 shop_group_of_two))"
  by (simp_all add: join_eval)

text \<open>
  The same at an instance: the group 100 needs three participants and has two, and no order
  exists. The join of user 3 completes it and writes exactly three orders, for users 1,
  2 and 3 at the group price 30 times their quantities 2, 1 and 1, and three
  notifications; the join of user 4 after that is refused and writes nothing.
\<close>

theorem group_completes_once_witness:
  "ids_fresh shop_group_of_two \<and>
   group_ok (the (groupBuyingGroups shop_group_of_two 100)) \<and>
   requiredSize (the (groupBuyingGroups shop_group_of_two 100)) = 3 \<and>
   currentSize (the (groupBuyingGroups shop_group_of_two 100)) = 2 \<and>
   orders shop_group_of_two = [] \<and>
   join_outcome shop_group_of_two (the (groupBuyingActivities shop_group_of_two 9))
     (snd (group_buying_join 50 3 9 (Some 100) 1 shop_group_of_two))
     (fst (projr (fst (group_buying_join 50 3 9 (Some 100) 1 shop_group_of_two)))) \<and>
   group_status (fst (projr (fst (group_buying_join 50 3 9 (Some 100) 1 shop_group_of_two)))) =
     Completed \<and>
   map order_summary (orders (snd (group_buying_join 50 3 9 (Some 100) 1 shop_group_of_two))) =
     [(1, Some 100, 60), (2, Some 100, 30), (3, Some 100, 30)] \<and>
   map recipientId (notifications (snd (group_buying_join 50 3 9 (Some 100) 1 shop_group_of_two))) =
     [1, 2, 3] \<and>
   fst (group_buying_join 50 4 9 (Some 100) 1
          (snd (group_buying_join 50 3 9 (Some 100) 1 shop_group_of_two))) = Inl GroupFull \<and>
   orders (snd (group_buying_join 50 4 9 (Some 100) 1
          (snd (group_buying_join 50 3 9 (Some 100) 1 shop_group_of_two)))) =
   orders (snd (group_buying_join 50 3 9 (Some 100) 1 shop_group_of_two))"
proof -
  let ?r = "group_buying_join 50 3 9 (Some 100) 1 shop_group_of_two"
  from group_completes_once[OF shop_group_facts(1-5), of 100
      "the (groupBuyingGroups shop_group_of_two 100)" 1]
    shop_group_facts(6-9)
  obtain g' act' db' where
    "?r = (Inr (g', act'), db')"
    "join_outcome shop_group_of_two (the (groupBuyingActivities shop_group_of_two 9)) db' g'"
    by blast
  then have "join_outcome shop_group_of_two (the (groupBuyingActivities shop_group_of_two 9))
      (snd ?r) (fst (projr (fst ?r)))"
    by simp
  then show ?thesis
    by (intro conjI shop_group_facts(5,7) shop_group_third_join)
qed

text \<open>
  C7 (the code departs from it). When a group fills up, each participant is to get one
  order at the group price times their quantity. The join route looks the group up by
  its id alone and never compares the group's activity with the activity in the
  request. The group 100 was opened for the activity 9 (product 2, group price 30) and
  has users 1 and 2 with quantities 2 and 1; user 3 joins it through the activity 8
  (product 1, group price 80). The group is completed, and all three orders are for
  product 1 at 80 a unit: totals 160, 80 and 80, where the group's own price gives 60,
  30 and 30. The participant is counted on the activity 8, which has no group.
\<close>

theorem group_completed_at_other_activity_price:
  "map_option group_activityId (groupBuyingGroups shop_two_activities 100) = Some 9 \<and>
   map_option groupPrice (groupBuyingActivities shop_two_activities 9) = Some 30 \<and>
   map_option act_productId (groupBuyingActivities shop_two_activities 9) = Some 2 \<and>
   map_option groupPrice (groupBuyingActivities shop_two_activities 8) = Some 80 \<and>
   orders shop_two_activities = [] \<and>
   \<not> isl (fst (group_buying_join 50 3 8 (Some 100) 1 shop_two_activities)) \<and>
   group_status (fst (projr (fst (group_buying_join 50 3 8 (Some 100) 1 shop_two_activities)))) =
     Completed \<and>
   group_activityId
     (fst (projr (fst (group_buying_join 50 3 8 (Some 100) 1 shop_two_activities)))) = 9 \<and>
   map order_summary
     (orders (snd (group_buying_join 50 3 8 (Some 100) 1 shop_two_activities))) =
     [(1, Some 100, 160), (2, Some 100, 80), (3, Some 100, 80)] \<and>
   ordered_products (snd (group_buying_join 50 3 8 (Some 100) 1 shop_two_activities)) =
     [1, 1, 1] \<and>
   map_option totalParticipants
     (groupBuyingActivities (snd (group_buying_join 50 3 8 (Some 100) 1 shop_two_activities)) 9) =
     Some 2 \<and>
   map_option totalParticipants
     (groupBuyingActivities (snd (group_buying_join 50 3 8 (Some 100) 1 shop_two_activities)) 8) =
     Some 1"
  by (simp add: join_eval shop_two_activities_def act8_def ordered_products_def)

section \<open>Further facts about counters and discounts\<close>

subsection \<open>What the order operations do keep\<close>

text \<open>
  Reserving, confirming and releasing each keep \<open>available + reserved \<le> total\<close> for
  every product, whatever the order of the operations: reserving and releasing move a
  quantity between the two summands, confirming takes it off both sides.
\<close>

lemma reserve_items_sum:
  "sum_bounded ps \<Longrightarrow> sum_bounded (fst (snd (reserve_items r its ps t acc)))"
proof (induction its arbitrary: ps t acc)
  case Nil
  then show ?case by simp
next
  case (Cons item rest)
  show ?case
  proof (cases "ps (req_productId item)")
    case None
    with Cons.prems show ?thesis by simp
  next
    case (Some product)
    let ?product' = "product\<lparr>inventory := (inventory product)
       \<lparr>available := available (inventory product) - req_quantity item,
        reserved := reserved (inventory product) + req_quantity item\<rparr>\<rparr>"
    have "sum_bounded (ps(req_productId item \<mapsto> ?product'))"
      using Cons.prems Some by (auto simp: sum_bounded_def)
    then have "sum_bounded (fst (snd (reserve_items r rest (ps(req_productId item \<mapsto> ?product'))
        (t + itemPrice r product * of_int (req_quantity item))
        (acc @ [\<lparr>item_productId = req_productId item, item_price = itemPrice r product,
                  item_quantity = req_quantity item,
                  item_total = itemPrice r product * of_int (req_quantity item)\<rparr>]))))"
      by (rule Cons.IH)
    then show ?thesis
      unfolding reserve_items.simps Some option.case Let_def
      using Cons.prems by (cases "available (inventory product) < req_quantity item") simp_all
  qed
qed

lemma release_items_sum: "sum_bounded ps \<Longrightarrow> sum_bounded (release_items its ps)"
proof (induction its arbitrary: ps)
  case Nil
  then show ?case by simp
next
  case (Cons item rest)
  show ?case
  proof (cases "ps (item_productId item)")
    case None
    with Cons show ?thesis by simp
  next
    case (Some product)
    have "sum_bounded (ps(item_productId item \<mapsto> product\<lparr>inventory := (inventory product)
            \<lparr>available := available (inventory product) + item_quantity item,
             reserved := reserved (inventory product) - item_quantity item\<rparr>\<rparr>))"
      using Cons.prems Some by (auto simp: sum_bounded_def)
    then show ?thesis
      unfolding release_items.simps Some option.case by (rule Cons.IH)
  qed
qed

lemma confirm_items_sum: "sum_bounded ps \<Longrightarrow> sum_bounded (confirm_items its ps)"
proof (induction its arbitrary: ps)
  case Nil
  then show ?case by simp
next
  case (Cons item rest)
  show ?case
  proof (cases "ps (item_productId item)")
    case None
    with Cons show ?thesis by simp
  next
    case (Some product)
    have "sum_bounded (ps(item_productId item \<mapsto> product\<lparr>inventory := (inventory product)
            \<lparr>reserved := reserved (inventory product) - item_quantity item,
             total_stock := total_stock (inventory product) - item_quantity item\<rparr>\<rparr>))"
      using Cons.prems Some by (auto simp: sum_bounded_def)
    then show ?thesis
      unfolding confirm_items.simps Some option.case by (rule Cons.IH)
  qed
qed

lemma create_order_products:
  "products (snd (create_order uid req db)) = products db \<or>
   (\<exists>u. users db uid = Some u \<and>
        products (snd (create_order uid req db)) =
          fst (snd (reserve_items (role u) (req_items req) (products db) 0 [])))"
  by (auto simp: create_order_def Let_def uuidv4_def
      split: option.splits prod.splits order_type.splits)

lemma order_operations_keep_sum:
  assumes "sum_bounded (products db)"
  shows "sum_bounded (products (snd (create_order uid req db)))"
    and "sum_bounded (products (snd (update_order_status uid orderId st db)))"
    and "sum_bounded (products (snd (pay_order uid orderId db)))"
proof -
  show "sum_bounded (products (snd (create_order uid req db)))"
    using create_order_products[of uid req db] assms reserve_items_sum by auto
  show "sum_bounded (products (snd (update_order_status uid orderId st db)))"
    using assms release_items_sum confirm_items_sum
    by (auto simp: update_order_status_def Let_def split: option.splits)
  show "sum_bounded (products (snd (pay_order uid orderId db)))"
    using assms by (auto simp: pay_order_def Let_def split: option.splits)
qed

subsection \<open>The discount of a coupon\<close>

text \<open>
  A fixed coupon never takes more than its value or the subtotal; a percentage coupon
  with a non-zero cap never takes more than the cap or the percentage, and never more
  than the subtotal if its value is at most 100.
\<close>

lemma discount_of_bounds:
  "coupon_type c = Fixed \<Longrightarrow> discount_of c t \<le> t \<and> discount_of c t \<le> coupon_value c"
  "coupon_type c = Percentage \<Longrightarrow> maxDiscount c = Some m \<Longrightarrow> m \<noteq> 0 \<Longrightarrow>
     discount_of c t \<le> m \<and> discount_of c t \<le> t * coupon_value c / 100"
  "coupon_type c = Percentage \<Longrightarrow> 0 \<le> t \<Longrightarrow> coupon_value c \<le> 100 \<Longrightarrow> discount_of c t \<le> t"
proof -
  show "coupon_type c = Fixed \<Longrightarrow> discount_of c t \<le> t \<and> discount_of c t \<le> coupon_value c"
    by (simp add: discount_of_def)
  show "coupon_type c = Percentage \<Longrightarrow> maxDiscount c = Some m \<Longrightarrow> m \<noteq> 0 \<Longrightarrow>
     discount_of c t \<le> m \<and> discount_of c t \<le> t * coupon_value c / 100"
    by (simp add: discount_of_def)
  assume c: "coupon_type c = Percentage" "0 \<le> t" "coupon_value c \<le> 100"
  then have "t * coupon_value c \<le> t * 100"
    by (intro mult_left_mono) simp_all
  then have "t * coupon_value c / 100 \<le> t" by simp
  then show "discount_of c t \<le> t"
    using c(1) by (auto simp: discount_of_def min_def split: option.splits)
qed

end
